theory Spec2Isabelle
  imports Main "HOL-Library.Word" "HOL-Library.Sublist"
begin

section \<open>JavaScript values used by the dmdb dialect\<close>

text \<open>
  Strings are \<^typ>\<open>string\<close>; the code units modelled are the one-byte ones, which
  covers every literal the dialect's source compares against.  A primitive that the
  source interpolates into a template literal or tests for truthiness is a
  \<open>js_prim\<close>.
\<close>

datatype js_prim = Undefined | Null | Bool bool | Str string | Num nat

definition digit_char :: "nat \<Rightarrow> char" where
  "digit_char d = char_of (48 + d)"

fun show_nat :: "nat \<Rightarrow> string" where
  "show_nat n = (if n < 10 then [digit_char n] else show_nat (n div 10) @ [digit_char (n mod 10)])"

declare show_nat.simps [simp del]

text \<open>\<open>`${v}`\<close>: the string a template literal renders for a primitive.\<close>

fun to_string :: "js_prim \<Rightarrow> string" where
  "to_string Undefined = ''undefined''"
| "to_string Null = ''null''"
| "to_string (Bool b) = (if b then ''true'' else ''false'')"
| "to_string (Str s) = s"
| "to_string (Num n) = show_nat n"

text \<open>The truthiness test of \<open>if (v)\<close> and \<open>v ? a : b\<close>.\<close>

fun truthy :: "js_prim \<Rightarrow> bool" where
  "truthy Undefined = False"
| "truthy Null = False"
| "truthy (Bool b) = b"
| "truthy (Str s) = (s \<noteq> [])"
| "truthy (Num n) = (n \<noteq> 0)"

section \<open>Connection manager (\<open>connection-manager.js\<close>)\<close>

subsection \<open>Data\<close>

text \<open>
  The four flags of a driver connection that the manager reads, each as the truthiness
  of the property: \<open>_fatalError\<close>, \<open>_protocolError\<close>, \<open>_closing\<close>, \<open>closed\<close>.
\<close>

record connection =
  c_fatalError :: bool
  c_protocolError :: bool
  c_closing :: bool
  c_closed :: bool

text \<open>A value thrown by the driver: the object's \<open>errCode\<close> property and its message.\<close>

record driver_error =
  errCode :: js_prim
  message :: string

text \<open>
  Modelled from the spec: the error classes of \<open>lib/errors\<close> are not part of the
  sources at hand; each typed connection error is built from the driver error and
  keeps it as its cause (\<open>parent\<close>).
\<close>

datatype connection_error =
    ConnectionRefusedError driver_error
  | AccessDeniedError driver_error
  | HostNotFoundError driver_error
  | HostNotReachableError driver_error
  | InvalidConnectionError driver_error
  | ConnectionError driver_error

fun parent :: "connection_error \<Rightarrow> driver_error" where
  "parent (ConnectionRefusedError e) = e"
| "parent (AccessDeniedError e) = e"
| "parent (HostNotFoundError e) = e"
| "parent (HostNotReachableError e) = e"
| "parent (InvalidConnectionError e) = e"
| "parent (ConnectionError e) = e"

record config =
  username :: js_prim
  password :: js_prim
  host :: js_prim
  port :: js_prim
  database :: js_prim
  pool_max :: js_prim
  pool_idle :: js_prim
  dialectOptions :: "(string \<times> js_prim) list"

text \<open>
  The driver module \<open>this.lib\<close>: \<open>createPool\<close> and the pool's \<open>getConnection\<close>, each
  either throwing a driver error or returning.
\<close>

record ('p, 'c) driver_lib =
  createPool :: "(string \<rightharpoonup> js_prim) \<Rightarrow> driver_error + 'p"
  getConnection :: "'p \<Rightarrow> driver_error + 'c"

subsection \<open>\<open>connect\<close>\<close>

text \<open>
  The object literal with the spread of \<open>config.dialectOptions\<close> last, so that an
  option of the same name replaces \<open>connectString\<close>, \<open>poolMax\<close> or \<open>poolTimeout\<close>.
\<close>

definition spread :: "(string \<rightharpoonup> js_prim) \<Rightarrow> (string \<times> js_prim) list \<Rightarrow> (string \<rightharpoonup> js_prim)" where
  "spread m kvs = foldl (\<lambda>acc (k, v). acc(k \<mapsto> v)) m kvs"

definition connectionConfig :: "config \<Rightarrow> (string \<rightharpoonup> js_prim)" where
  "connectionConfig cfg =
     (let base = [''connectString'' \<mapsto>
                    Str (''dm://'' @ to_string (username cfg) @ '':'' @ to_string (password cfg)
                         @ ''@'' @ to_string (host cfg) @ '':'' @ to_string (port cfg)
                         @ ''?autoCommit=true''),
                  ''poolMax'' \<mapsto> pool_max cfg,
                  ''poolTimeout'' \<mapsto> pool_idle cfg];
          cc = spread base (dialectOptions cfg)
      in if truthy (database cfg)
         then cc(''connectString'' \<mapsto>
                   Str (to_string (case cc ''connectString'' of None \<Rightarrow> Undefined | Some v \<Rightarrow> v)
                        @ ''&schema='' @ to_string (database cfg)))
         else cc)"

text \<open>The \<open>switch (err.errCode)\<close> of the \<open>catch\<close> block; \<open>case\<close> compares with \<open>===\<close>.\<close>

definition classify :: "driver_error \<Rightarrow> connection_error" where
  "classify err =
     (if errCode err = Str ''ECONNREFUSED'' then ConnectionRefusedError err
      else if errCode err = Str ''ER_ACCESS_DENIED_ERROR'' then AccessDeniedError err
      else if errCode err = Str ''ENOTFOUND'' then HostNotFoundError err
      else if errCode err = Str ''EHOSTUNREACH'' then HostNotReachableError err
      else if errCode err = Str ''EINVAL'' then InvalidConnectionError err
      else ConnectionError err)"

definition connect :: "('p, 'c) driver_lib \<Rightarrow> config \<Rightarrow> connection_error + 'c" where
  "connect lib cfg =
     (case createPool lib (connectionConfig cfg) of
        Inl err \<Rightarrow> Inl (classify err)
      | Inr pool \<Rightarrow>
          (case getConnection lib pool of
             Inl err \<Rightarrow> Inl (classify err)
           | Inr conn \<Rightarrow> Inr conn))"

text \<open>The driver error, if any, that the \<open>try\<close> block of \<open>connect\<close> catches.\<close>

definition driver_failure :: "('p, 'c) driver_lib \<Rightarrow> config \<Rightarrow> driver_error option" where
  "driver_failure lib cfg =
     (case createPool lib (connectionConfig cfg) of
        Inl err \<Rightarrow> Some err
      | Inr pool \<Rightarrow> (case getConnection lib pool of Inl err \<Rightarrow> Some err | Inr conn \<Rightarrow> None))"

subsection \<open>A driver that refuses every connection\<close>

definition refused :: driver_error where
  "refused = \<lparr>errCode = Str ''ECONNREFUSED'', message = ''connect ECONNREFUSED''\<rparr>"

definition refusing_lib :: "(unit, connection) driver_lib" where
  "refusing_lib = \<lparr>createPool = (\<lambda>cc. Inl refused), getConnection = (\<lambda>p. Inl refused)\<rparr>"

definition local_config :: config where
  "local_config = \<lparr>username = Str ''SYSDBA'', password = Str ''SYSDBA'', host = Str ''localhost'',
     port = Num 5236, database = Str ''APP'', pool_max = Num 5, pool_idle = Num 10000,
     dialectOptions = []\<rparr>"

subsection \<open>\<open>disconnect\<close>\<close>

text \<open>
  The promise of \<open>disconnect\<close> settles with the outcome below; \<open>driver_calls\<close> lists
  the calls made on the driver connection.  The driver's \<open>close\<close> takes the connection
  to its state after closing and hands the callback an error or nothing.
\<close>

datatype outcome = Resolved | Rejected driver_error

datatype driver_call = DriverClose

record disconnect_result =
  settled :: outcome
  driver_calls :: "driver_call list"
  conn_after :: connection

definition disconnect :: "(connection \<Rightarrow> driver_error option \<times> connection) \<Rightarrow> connection \<Rightarrow> disconnect_result" where
  "disconnect close conn =
     (if c_closing conn
      then \<lparr>settled = Resolved, driver_calls = [], conn_after = conn\<rparr>
      else (case close conn of
              (None, conn') \<Rightarrow> \<lparr>settled = Resolved, driver_calls = [DriverClose], conn_after = conn'\<rparr>
            | (Some err, conn') \<Rightarrow> \<lparr>settled = Rejected err, driver_calls = [DriverClose], conn_after = conn'\<rparr>))"

text \<open>A driver whose \<open>close\<close> succeeds and marks the connection closed.\<close>

definition close_ok :: "connection \<Rightarrow> driver_error option \<times> connection" where
  "close_ok conn = (None, conn\<lparr>c_closing := True, c_closed := True\<rparr>)"

subsection \<open>\<open>validate\<close>\<close>

text \<open>
  \<open>connection && !a && !b && !c && !d\<close>: an absent connection is returned as it is (a
  falsy value); otherwise the result is the boolean of the last operand evaluated.
\<close>

datatype validate_result = Absent | Boolean bool

definition validate :: "connection option \<Rightarrow> validate_result" where
  "validate connection =
     (case connection of
        None \<Rightarrow> Absent
      | Some c \<Rightarrow> Boolean (\<not> c_fatalError c \<and> \<not> c_protocolError c \<and> \<not> c_closing c \<and> \<not> c_closed c))"

section \<open>Data types (\<open>data-types.js\<close>)\<close>

text \<open>
  The driver's field accessor \<open>value.buffer()\<close> returns a buffer or nothing; the WKB
  parser of the \<open>wkx\<close> library, followed by \<open>toGeoJSON\<close>, is a parameter that throws
  or returns.
\<close>

record driver_field =
  buffer :: "8 word list option"

definition GEOMETRY_parse :: "(8 word list \<Rightarrow> 'e + 'g) \<Rightarrow> driver_field \<Rightarrow> 'e + 'g option" where
  "GEOMETRY_parse wkx_toGeoJSON v =
     (case buffer v of
        None \<Rightarrow> Inr None
      | Some b \<Rightarrow>
          if length b = 0 then Inr None
          else (case wkx_toGeoJSON (drop 4 b) of Inl e \<Rightarrow> Inl e | Inr g \<Rightarrow> Inr (Some g)))"

section \<open>Strings\<close>

text \<open>\<open>s.includes(p)\<close>: \<open>p\<close> occurs in \<open>s\<close> at some index.\<close>

fun js_includes :: "string \<Rightarrow> string \<Rightarrow> bool" where
  "js_includes [] p = (p = [])"
| "js_includes (c # cs) p = (prefix p (c # cs) \<or> js_includes cs p)"

text \<open>
  \<open>s.replace(/pat/g, rep)\<close> for a pattern of literal characters and a replacement
  without \<open>$\<close>: scanning from the left, each occurrence found is replaced and the scan
  goes on behind it.
\<close>

fun replace_all :: "string \<Rightarrow> string \<Rightarrow> string \<Rightarrow> string" where
  "replace_all pat rep [] = []"
| "replace_all pat rep (c # cs) =
     (if pat \<noteq> [] \<and> prefix pat (c # cs)
      then rep @ replace_all pat rep (drop (length pat - 1) cs)
      else c # replace_all pat rep cs)"

section \<open>Query (\<open>query.js\<close>)\<close>

text \<open>
  Modelled from the spec: the kinds of query, a closed enumeration kept in
  \<open>options.type\<close>; \<open>isSelectQuery\<close> of the abstract query class, which is not part of
  the sources at hand, tests for the kind SELECT.
\<close>

datatype query_kind =
    SELECT | INSERT | UPDATE | DELETE | UPSERT | BULKUPDATE | BULKDELETE | DESCRIBE
  | SHOWINDEXES | SHOWCONSTRAINTS | FOREIGNKEYS | VERSION | RAW | CALL

record query =
  kind :: query_kind
  maxRows :: nat
  outFormat :: nat
  resultSet :: bool
  extendedMetaData :: bool

definition isSelectQuery :: "query \<Rightarrow> bool" where
  "isSelectQuery q = (kind q = SELECT)"

text \<open>
  \<open>run\<close> up to the call of the driver: the text stored in \<open>this.sql\<close> and the arguments
  of \<open>connection.execute\<close>.  Absent parameters are sent as the empty object, written
  \<open>None\<close> here.
\<close>

record 'p run_effect =
  this_sql :: string
  execute_sql :: string
  execute_parameters :: "'p option"
  execute_extendedMetaData :: bool
  execute_outFormat :: nat
  execute_resultSet :: bool

definition run :: "query \<Rightarrow> string \<Rightarrow> 'p option \<Rightarrow> 'p run_effect" where
  "run q sql parameters =
     (let sql' = (if isSelectQuery q \<and> (js_includes sql '' = true'' \<or> js_includes sql '' = false'')
                  then replace_all '' = false'' '' = 0'' (replace_all '' = true'' '' = 1'' sql)
                  else sql)
      in \<lparr>this_sql = sql', execute_sql = sql', execute_parameters = parameters,
          execute_extendedMetaData = extendedMetaData q, execute_outFormat = outFormat q,
          execute_resultSet = resultSet q\<rparr>)"

section \<open>Query generator (\<open>query-generator.js\<close>)\<close>

subsection \<open>Values, errors and the inherited generator\<close>

text \<open>
  A value handed to the generator is a primitive or one of the \<open>Utils.SequelizeMethod\<close>
  objects (\<open>fn\<close>, \<open>literal\<close>, ...), which the generator only tests for with
  \<open>instanceof\<close> and passes on.
\<close>

datatype js_value = Prim js_prim | SequelizeMethod string

datatype js_error = TypeError string | ReferenceError string | Error string

text \<open>\<open>xs.join(sep)\<close>\<close>

fun join :: "string \<Rightarrow> string list \<Rightarrow> string" where
  "join sep [] = []"
| "join sep [x] = x"
| "join sep (x # y # zs) = x @ sep @ join sep (y # zs)"

text \<open>\<open>s.toUpperCase()\<close> on the ASCII letters; other code units are left as they are.\<close>

definition upper_char :: "char \<Rightarrow> char" where
  "upper_char c =
     (case map_of (zip ''abcdefghijklmnopqrstuvwxyz'' ''ABCDEFGHIJKLMNOPQRSTUVWXYZ'') c of
        Some u \<Rightarrow> u
      | None \<Rightarrow> c)"

definition toUpperCase :: "string \<Rightarrow> string" where
  "toUpperCase s = map upper_char s"

record data_type =
  type_toString :: string
  type_binary :: bool

record references =
  ref_model :: string
  ref_key :: js_prim

text \<open>
  A column attribute as \<open>attributeToSQL\<close> and \<open>upsertQuery\<close> read it.  \<open>type_toString\<close>
  is the text \<open>attribute.type.toString({ escape })\<close> returns and \<open>type_binary\<close> is
  \<open>attribute.type._binary === true\<close>.  \<open>comment\<close>, \<open>after\<close>, \<open>onDelete\<close> and
  \<open>onUpdate\<close> are strings, the empty string standing for an absent one.
\<close>

record attribute =
  atype :: data_type
  field :: js_prim
  allowNull :: js_prim
  autoIncrement :: js_prim
  defaultValue :: js_value
  unique :: js_prim
  primaryKey :: js_prim
  comment :: string
  first :: js_prim
  after :: string
  references :: "references option"
  onDelete :: string
  onUpdate :: string

text \<open>
  What the dialect's generator inherits from the abstract generator and from \<open>Utils\<close>,
  neither of which is part of the sources at hand: quoting, escaping, formatting with
  a bind parameter, and the generator's own options.
  \<open>escapeInsert v a\<close> is \<open>this.escape(v, a, { context: 'INSERT' })\<close>;
  \<open>formatInsert v a custom bind\<close> is \<open>this.format(v, a, { context: 'INSERT' }, bindParam)\<close>
  with the current bind array, \<open>custom\<close> telling whether \<open>bindParam\<close> came with the
  options, and returns the text and the bind array afterwards.
\<close>

datatype bind_option = BindUndefined | BindFalse | BindCustom

record upsert_options =
  bindParam :: bind_option
  searchPath :: js_prim
  exception :: js_prim

record generator =
  quoteIdentifier :: "string \<Rightarrow> string"
  quoteTable :: "string \<Rightarrow> string"
  escape :: "js_value \<Rightarrow> string"
  escapeInsert :: "js_value \<Rightarrow> attribute option \<Rightarrow> string"
  formatInsert :: "js_value \<Rightarrow> attribute option \<Rightarrow> bool \<Rightarrow> js_value list \<Rightarrow> string \<times> js_value list"
  defaultValueSchemable :: "js_value \<Rightarrow> bool"
  removeNullValuesFromHash :: "(string \<times> js_value) list \<Rightarrow> bool \<Rightarrow> (string \<times> js_value) list"
  omitNull :: bool
  generator_options :: upsert_options
  prependSearchPath :: bool
  supports_EXCEPTION :: bool

subsection \<open>\<open>attributeToSQL\<close>\<close>

definition typeWithoutDefault :: "string set" where
  "typeWithoutDefault = {''BLOB'', ''TEXT'', ''GEOMETRY'', ''JSON''}"

text \<open>An attribute that is not a plain object is a type, wrapped as \<open>{ type: attribute }\<close>.\<close>

datatype attribute_arg = PlainObject attribute | TypeOnly data_type

definition type_only :: "data_type \<Rightarrow> attribute" where
  "type_only t = \<lparr>atype = t, field = Undefined, allowNull = Undefined, autoIncrement = Undefined,
     defaultValue = Prim Undefined, unique = Undefined, primaryKey = Undefined, comment = [],
     first = Undefined, after = [], references = None, onDelete = [], onUpdate = []\<rparr>"

record attribute_options =
  options_context :: string
  options_tableName :: string
  options_foreignKey :: string

text \<open>The pieces appended to the template, in the order of the source.\<close>

definition default_clause :: "generator \<Rightarrow> attribute \<Rightarrow> string" where
  "default_clause g a =
     (if type_toString (atype a) \<notin> typeWithoutDefault
         \<and> \<not> type_binary (atype a)
         \<and> defaultValueSchemable g (defaultValue a)
      then '' DEFAULT '' @ escape g
             (case defaultValue a of
                Prim (Bool b) \<Rightarrow>
                  if type_toString (atype a) = ''BIT'' then Prim (Num (if b then 1 else 0))
                  else Prim (Bool b)
              | v \<Rightarrow> v)
      else [])"

definition references_clause :: "generator \<Rightarrow> attribute \<Rightarrow> attribute_options option \<Rightarrow> string" where
  "references_clause g a options =
     (case references a of
        None \<Rightarrow> []
      | Some r \<Rightarrow>
          (case options of
             Some opts \<Rightarrow>
               if options_context opts = ''addColumn'' \<and> options_foreignKey opts \<noteq> []
               then (let attrName = quoteIdentifier g (options_foreignKey opts);
                         fkName = quoteIdentifier g (options_tableName opts @ ''_'' @ attrName @ ''_foreign_idx'')
                     in '', ADD CONSTRAINT '' @ fkName @ '' FOREIGN KEY ('' @ attrName @ '')'')
               else []
           | None \<Rightarrow> [])
          @ '' REFERENCES '' @ quoteTable g (ref_model r)
          @ (if truthy (ref_key r) then '' ('' @ quoteIdentifier g (to_string (ref_key r)) @ '')''
             else '' ('' @ quoteIdentifier g ''id'' @ '')'')
          @ (if onDelete a \<noteq> [] then '' ON DELETE '' @ toUpperCase (onDelete a) else [])
          @ (if onUpdate a \<noteq> [] then '' ON UPDATE '' @ toUpperCase (onUpdate a) else []))"

definition attributeToSQL :: "generator \<Rightarrow> attribute_arg \<Rightarrow> attribute_options option \<Rightarrow> string" where
  "attributeToSQL g arg options =
     (let a = (case arg of PlainObject a \<Rightarrow> a | TypeOnly t \<Rightarrow> type_only t)
      in type_toString (atype a)
         @ (if allowNull a = Bool False then '' NOT NULL'' else [])
         @ (if truthy (autoIncrement a) then '' auto_increment'' else [])
         @ default_clause g a
         @ (if unique a = Bool True then '' UNIQUE'' else [])
         @ (if truthy (primaryKey a) then '' PRIMARY KEY'' else [])
         @ (if comment a \<noteq> [] then '' COMMENT '' @ escape g (Prim (Str (comment a))) else [])
         @ (if truthy (first a) then '' FIRST'' else [])
         @ (if after a \<noteq> [] then '' AFTER '' @ quoteIdentifier g (after a) else [])
         @ references_clause g a options)"

subsection \<open>\<open>upsertQuery\<close>\<close>

text \<open>
  Objects are lists of their own properties in enumeration order.  \<open>modelAttributeMap\<close>
  is filled from \<open>model.rawAttributes\<close> under the attribute's key and, when the attribute
  has a \<open>field\<close>, under that name as well; a later entry replaces an earlier one.
\<close>

definition modelAttributeMap :: "(string \<times> attribute) list option \<Rightarrow> (string \<rightharpoonup> attribute)" where
  "modelAttributeMap rawAttributes =
     (case rawAttributes of
        None \<Rightarrow> Map.empty
      | Some kvs \<Rightarrow>
          foldl (\<lambda>m (key, a). if truthy (field a) then (m(key \<mapsto> a))(to_string (field a) \<mapsto> a) else m(key \<mapsto> a))
            Map.empty kvs)"

text \<open>\<open>_.defaults(options, this.options)\<close> on the three options the function reads.\<close>

definition defaults :: "upsert_options \<Rightarrow> upsert_options \<Rightarrow> upsert_options" where
  "defaults options own =
     \<lparr>bindParam = (if bindParam options = BindUndefined then bindParam own else bindParam options),
      searchPath = (if searchPath options = Undefined then searchPath own else searchPath options),
      exception = (if exception options = Undefined then exception own else exception options)\<rparr>"

text \<open>\<open>options.bindParam === false\<close> after the two assignments that switch binding off.\<close>

definition bindOff :: "generator \<Rightarrow> upsert_options \<Rightarrow> bool" where
  "bindOff g options =
     (let opts = defaults options (generator_options g)
      in prependSearchPath g \<or> truthy (searchPath opts)
         \<or> (supports_EXCEPTION g \<and> truthy (exception opts))
         \<or> bindParam opts = BindFalse)"

definition identityInsert :: "(string \<rightharpoonup> attribute) \<Rightarrow> (string \<times> js_value) list \<Rightarrow> bool" where
  "identityInsert m insertValues =
     (\<exists>key \<in> set (map fst insertValues).
        case m key of None \<Rightarrow> False | Some a \<Rightarrow> autoIncrement a = Bool True)"

text \<open>The loop over \<open>insertValues\<close>: the quoted fields, the rendered values and the bind array.\<close>

fun insert_loop ::
  "generator \<Rightarrow> upsert_options \<Rightarrow> (string \<rightharpoonup> attribute) \<Rightarrow> (string \<times> js_value) list
     \<Rightarrow> string list \<times> string list \<times> js_value list \<Rightarrow> string list \<times> string list \<times> js_value list" where
  "insert_loop g options m [] acc = acc"
| "insert_loop g options m ((key, v) # rest) (flds, vals, bind) =
     (if (case v of SequelizeMethod x \<Rightarrow> True | Prim x \<Rightarrow> False) \<or> bindOff g options
      then insert_loop g options m rest
             (flds @ [quoteIdentifier g key], vals @ [escapeInsert g v (m key)], bind)
      else (let (text, bind') =
                  formatInsert g v (m key)
                    (bindParam (defaults options (generator_options g)) \<noteq> BindUndefined) bind
            in insert_loop g options m rest (flds @ [quoteIdentifier g key], vals @ [text], bind')))"

text \<open>\<open>fields.forEach((field, idx) => ...)\<close> building the candidate row.\<close>

fun select_loop :: "nat \<Rightarrow> string list \<Rightarrow> string list \<Rightarrow> string \<Rightarrow> string" where
  "select_loop idx (f # flds) (v # vals) selectQuery =
     select_loop (Suc idx) flds vals
       (selectQuery
        @ (if idx = 0 \<and> f \<noteq> ''\"id\"'' then ''NULL \"id\", '' else [])
        @ (if idx > 0 then '', '' else [])
        @ v @ '' '' @ f)"
| "select_loop idx flds vals selectQuery = selectQuery"

text \<open>
  \<open>Object.keys(updateValues).forEach((key, idx) => ...)\<close>: the text so far and the flag
  \<open>updateQueryAddedFields\<close>.
\<close>

fun update_loop :: "bool \<Rightarrow> nat \<Rightarrow> string list \<Rightarrow> string \<times> bool \<Rightarrow> string \<times> bool" where
  "update_loop ident idx [] acc = acc"
| "update_loop ident idx (key # keys) (updateQuery, added) =
     (if ident \<and> idx = 0 \<or> key = ''id''
      then update_loop ident (Suc idx) keys (updateQuery, added)
      else update_loop ident (Suc idx) keys
             ((updateQuery @ (if added then '', '' else []))
                @ ''T1.\"'' @ key @ ''\"=T2.\"'' @ key @ ''\"'', True))"

text \<open>The two loops of the insert clause, over the fields, with the text before each field.\<close>

fun insert_fields_loop :: "bool \<Rightarrow> nat \<Rightarrow> string \<Rightarrow> string list \<Rightarrow> string \<times> bool \<Rightarrow> string \<times> bool" where
  "insert_fields_loop ident idx pre [] acc = acc"
| "insert_fields_loop ident idx pre (f # flds) (insertQuery, added) =
     (if ident \<and> idx = 0
      then insert_fields_loop ident (Suc idx) pre flds (insertQuery, added)
      else insert_fields_loop ident (Suc idx) pre flds
             ((insertQuery @ (if added then '', '' else [])) @ pre @ f, True))"

record upsert_result =
  upsert_query :: string
  upsert_bind :: "js_value list option"

record upsert_model =
  rawAttributes :: "(string \<times> attribute) list option"

definition updateQuery ::
  "generator \<Rightarrow> (string \<times> js_value) list \<Rightarrow> (string \<times> js_value) list \<Rightarrow> upsert_model \<Rightarrow> string" where
  "updateQuery g insertValues updateValues model =
     fst (update_loop
            (identityInsert (modelAttributeMap (rawAttributes model))
               (removeNullValuesFromHash g insertValues (omitNull g)))
            0 (map fst updateValues) (''UPDATE SET '', False))"

definition upsertQuery ::
  "generator \<Rightarrow> string \<Rightarrow> (string \<times> js_value) list \<Rightarrow> (string \<times> js_value) list
     \<Rightarrow> upsert_model \<Rightarrow> upsert_options \<Rightarrow> upsert_result" where
  "upsertQuery g table insertValues updateValues model options =
     (let m = modelAttributeMap (rawAttributes model);
          quotedTable = quoteTable g table;
          inserted = removeNullValuesFromHash g insertValues (omitNull g);
          ident = identityInsert m inserted;
          (flds, vals, bind) = insert_loop g options m inserted ([], [], []);
          selectQuery = select_loop 0 flds vals ''SELECT '' @ '' FROM DUAL'';
          insertKeys = fst (insert_fields_loop ident 0 [] flds (''INSERT ('', False)) @ '') VALUES ('';
          insertQuery = fst (insert_fields_loop ident 0 ''T2.'' flds (insertKeys, False)) @ '')''
      in \<lparr>upsert_query = ''MERGE INTO '' @ quotedTable @ '' AS T1 USING ('' @ selectQuery @ '') AS T2''
                   @ [CHR 0x0A] @ ''      ON T1.\"id\" = T2.\"id\" ''
                   @ [CHR 0x0A] @ ''      WHEN MATCHED THEN '' @ updateQuery g insertValues updateValues model
                   @ [CHR 0x0A] @ ''      WHEN NOT MATCHED THEN '' @ insertQuery @ '';'',
          upsert_bind = (if bindOff g options then None else Some bind)\<rparr>)"

subsection \<open>Regular expressions\<close>

text \<open>
  The regular expressions of the generator are run by a backtracking matcher with the
  priorities of the JavaScript one: \<open>matches r s\<close> lists the lengths of the prefixes of
  \<open>s\<close> that \<open>r\<close> can match, in the order backtracking tries them, so that the head of
  the list is the match an expression anchored with \<open>^\<close> returns.  \<open>Star\<close> is the greedy
  \<open>*\<close> and \<open>LazyStar\<close> is \<open>*?\<close>; as in JavaScript an iteration that matches the empty
  string is not taken.  A character class is the predicate of its members.
\<close>

datatype rx = Eps | Sym "char \<Rightarrow> bool" | Seq rx rx | Alt rx rx | Star rx | LazyStar rx

function matches :: "rx \<Rightarrow> string \<Rightarrow> nat list" where
  "matches Eps s = [0]"
| "matches (Sym p) s = (case s of [] \<Rightarrow> [] | c # cs \<Rightarrow> if p c then [1] else [])"
| "matches (Seq a b) s = concat (map (\<lambda>i. map (\<lambda>j. i + j) (matches b (drop i s))) (matches a s))"
| "matches (Alt a b) s = matches a s @ matches b s"
| "matches (Star a) s =
     concat (map (\<lambda>i. if 0 < i \<and> i \<le> length s then map (\<lambda>j. i + j) (matches (Star a) (drop i s)) else [])
               (matches a s)) @ [0]"
| "matches (LazyStar a) s =
     0 # concat (map (\<lambda>i. if 0 < i \<and> i \<le> length s then map (\<lambda>j. i + j) (matches (LazyStar a) (drop i s)) else [])
               (matches a s))"
  by pat_completeness auto
termination
  by (relation "measures [\<lambda>(r, s). size r, \<lambda>(r, s). length s]") auto

declare matches.simps [simp del]

text \<open>A literal word, the same under the flag \<open>i\<close>, \<open>r+\<close>, \<open>r?\<close> and \<open>r{0,2}\<close>.\<close>

definition lit :: "string \<Rightarrow> rx" where
  "lit w = foldr (\<lambda>c r. Seq (Sym (\<lambda>x. x = c)) r) w Eps"

definition lit_i :: "string \<Rightarrow> rx" where
  "lit_i w = foldr (\<lambda>c r. Seq (Sym (\<lambda>x. upper_char x = upper_char c)) r) w Eps"

definition Plus :: "rx \<Rightarrow> rx" where
  "Plus r = Seq r (Star r)"

definition Opt :: "rx \<Rightarrow> rx" where
  "Opt r = Alt r Eps"

definition Rep02 :: "rx \<Rightarrow> rx" where
  "Rep02 r = Alt (Seq r (Alt r Eps)) Eps"

text \<open>
  The classes \<open>.\<close>, \<open>\s\<close>, \<open>\d\<close>, \<open>[a-z]\<close> under the flag \<open>i\<close>, and \<open>\w\<close>, on one-byte
  code units.
\<close>

definition is_line_terminator :: "char \<Rightarrow> bool" where
  "is_line_terminator c = (c = CHR 0x0A \<or> c = CHR 0x0D)"

definition dot :: "char \<Rightarrow> bool" where
  "dot c = (\<not> is_line_terminator c)"

definition is_space :: "char \<Rightarrow> bool" where
  "is_space c = ((of_char c :: nat) \<in> {9, 10, 11, 12, 13, 32, 160})"

definition is_digit :: "char \<Rightarrow> bool" where
  "is_digit c = (48 \<le> (of_char c :: nat) \<and> (of_char c :: nat) \<le> 57)"

definition is_alpha :: "char \<Rightarrow> bool" where
  "is_alpha c = (let n = (of_char c :: nat) in (65 \<le> n \<and> n \<le> 90) \<or> (97 \<le> n \<and> n \<le> 122))"

definition is_word :: "char \<Rightarrow> bool" where
  "is_word c = (is_alpha c \<or> is_digit c \<or> c = CHR ''_'')"

text \<open>\<open>r.exec(s)\<close> for an expression anchored at the start: the matched text, or null.\<close>

definition exec :: "rx \<Rightarrow> string \<Rightarrow> string option" where
  "exec r s = (case matches r s of [] \<Rightarrow> None | n # ns \<Rightarrow> Some (take n s))"

text \<open>\<open>s.replace(pat, rep)\<close> for a string pattern: the first occurrence is replaced.\<close>

fun replace_first :: "string \<Rightarrow> string \<Rightarrow> string \<Rightarrow> string" where
  "replace_first pat rep [] = (if pat = [] then rep else [])"
| "replace_first pat rep (c # cs) =
     (if prefix pat (c # cs) then rep @ drop (length pat) (c # cs)
      else c # replace_first pat rep cs)"

subsection \<open>\<open>createTableQuery\<close>\<close>

text \<open>
  \<open>dataType.match(/^(.+) (REFERENCES.*)$/)\<close>: the groups 1 and 2 of the first way, in
  backtracking order, to split the whole string into \<open>.+\<close>, a space and
  \<open>REFERENCES.*\<close>; \<open>None\<close> is null.
\<close>

definition references_match :: "string \<Rightarrow> (string \<times> string) option" where
  "references_match s =
     (case concat (map (\<lambda>i. if i < length s \<and> s ! i = CHR '' ''
                              then concat (map (\<lambda>j. if Suc i + j = length s
                                                     then [(take i s, take j (drop (Suc i) s))] else [])
                                            (matches (Seq (lit ''REFERENCES'') (Star (Sym dot))) (drop (Suc i) s)))
                              else [])
                     (matches (Plus (Sym dot)) s)) of
        [] \<Rightarrow> None
      | m # ms \<Rightarrow> Some m)"

text \<open>
  The table's attributes are the own properties of the \<open>attributes\<close> object in
  enumeration order, each a column name with its rendered type; \<open>foreignKeys\<close> is an
  object filled by assignment.
\<close>

fun assign :: "string \<Rightarrow> 'v \<Rightarrow> (string \<times> 'v) list \<Rightarrow> (string \<times> 'v) list" where
  "assign k v [] = [(k, v)]"
| "assign k v ((k', v') # kvs) = (if k = k' then (k, v) # kvs else (k', v') # assign k v kvs)"

record unique_key =
  indexName :: "string option"
  customIndex :: bool
  uk_fields :: "string list"

record create_options =
  initialAutoIncrement :: js_prim
  uniqueKeys :: "unique_key list option"

record create_state =
  primaryKeys :: "string list"
  foreignKeys :: "(string \<times> string) list"
  attrStr :: "string list"

text \<open>The \<open>for (const attr in attributes)\<close> loop; reading \<open>match[1]\<close> of null throws.\<close>

fun attributes_loop :: "generator \<Rightarrow> (string \<times> string) list \<Rightarrow> create_state \<Rightarrow> js_error + create_state" where
  "attributes_loop g [] st = Inr st"
| "attributes_loop g ((attr, dataType) # rest) st =
     (if js_includes dataType ''PRIMARY KEY''
      then (if js_includes dataType ''REFERENCES''
            then (case references_match dataType of
                    None \<Rightarrow> Inl (TypeError ''Cannot read property '1' of null'')
                  | Some (m1, m2) \<Rightarrow>
                      attributes_loop g rest
                        \<lparr>primaryKeys = primaryKeys st @ [attr],
                         foreignKeys = assign attr m2 (foreignKeys st),
                         attrStr = attrStr st
                           @ [quoteIdentifier g attr @ '' '' @ replace_first ''PRIMARY KEY'' [] m1]\<rparr>)
            else attributes_loop g rest
                   (st\<lparr>primaryKeys := primaryKeys st @ [attr],
                       attrStr := attrStr st
                         @ [quoteIdentifier g attr @ '' '' @ replace_first ''PRIMARY KEY'' [] dataType]\<rparr>))
      else if js_includes dataType ''REFERENCES''
      then (case references_match dataType of
              None \<Rightarrow> Inl (TypeError ''Cannot read property '1' of null'')
            | Some (m1, m2) \<Rightarrow>
                attributes_loop g rest
                  (st\<lparr>foreignKeys := assign attr m2 (foreignKeys st),
                      attrStr := attrStr st @ [quoteIdentifier g attr @ '' '' @ m1]\<rparr>))
      else if js_includes dataType ''JSON''
      then attributes_loop g rest
             (st\<lparr>attrStr := attrStr st
                   @ [quoteIdentifier g attr @ '' '' @ dataType
                      @ '' CHECK ('' @ quoteIdentifier g attr @ '' IS JSON(LAX))'']\<rparr>)
      else attributes_loop g rest
             (st\<lparr>attrStr := attrStr st @ [quoteIdentifier g attr @ '' '' @ dataType]\<rparr>))"

text \<open>The text \<open>_.each(options.uniqueKeys, ...)\<close> appends, one clause for each custom index.\<close>

definition unique_constraints :: "generator \<Rightarrow> string \<Rightarrow> create_options \<Rightarrow> string list" where
  "unique_constraints g tableName options =
     (case uniqueKeys options of
        None \<Rightarrow> []
      | Some keys \<Rightarrow>
          map (\<lambda>columns.
                 ''CONSTRAINT ''
                 @ quoteIdentifier g
                     (case indexName columns of
                        Some name \<Rightarrow> name
                      | None \<Rightarrow> ''uniq_'' @ tableName @ ''_'' @ join ''_'' (uk_fields columns))
                 @ '' UNIQUE ('' @ join '', '' (map (quoteIdentifier g) (uk_fields columns)) @ '')'')
            (filter customIndex keys))"

definition createTableQuery ::
  "generator \<Rightarrow> string \<Rightarrow> (string \<times> string) list \<Rightarrow> create_options \<Rightarrow> js_error + string" where
  "createTableQuery g tableName attributes options =
     (case attributes_loop g attributes \<lparr>primaryKeys = [], foreignKeys = [], attrStr = []\<rparr> of
        Inl e \<Rightarrow> Inl e
      | Inr st \<Rightarrow>
          (let table = quoteTable g tableName;
               initial = (if truthy (initialAutoIncrement options)
                          then '' AUTO_INCREMENT='' @ to_string (initialAutoIncrement options) else []);
               pkString = join '', '' (map (quoteIdentifier g) (primaryKeys st));
               attributesClause =
                 join '', '' (attrStr st)
                 @ concat (map (\<lambda>clause. '', '' @ clause) (unique_constraints g tableName options))
                 @ (if length pkString > 0 then '', PRIMARY KEY ('' @ pkString @ '')'' else [])
                 @ concat (map (\<lambda>(fkey, ref). '', FOREIGN KEY ('' @ quoteIdentifier g fkey @ '') '' @ ref)
                             (foreignKeys st))
           in Inr (''CREATE TABLE IF NOT EXISTS '' @ table @ '' ('' @ attributesClause @ '')''
                   @ initial @ '';'')))"

subsection \<open>\<open>_checkValidJsonStatement\<close>\<close>

definition jsonFunctionRegex :: rx where
  "jsonFunctionRegex =
     Seq (Star (Sym is_space))
      (Seq (Seq (Rep02 (Seq (Plus (Sym is_alpha)) (Sym (\<lambda>c. c = CHR ''_''))))
             (Seq (lit_i ''json'')
               (Seq (Opt (Sym (\<lambda>c. upper_char c = CHR ''B'')))
                    (Rep02 (Seq (Sym (\<lambda>c. c = CHR ''_'')) (Plus (Sym is_alpha)))))))
        (Seq (Sym (\<lambda>c. c = CHR ''(''))
          (Seq (Star (Sym (\<lambda>c. c \<noteq> CHR '')''))) (Sym (\<lambda>c. c = CHR '')'')))))"

definition jsonOperatorRegex :: rx where
  "jsonOperatorRegex =
     Seq (Star (Sym is_space))
       (Alt (Seq (lit ''->'') (Opt (Sym (\<lambda>c. c = CHR ''>''))))
       (Alt (lit ''@>'')
       (Alt (lit ''<@'')
       (Alt (Seq (Sym (\<lambda>c. c = CHR ''?'')) (Opt (Sym (\<lambda>c. c = CHR ''|'' \<or> c = CHR ''&''))))
       (Alt (lit ''||'')
            (lit ''#-''))))))"

text \<open>
  The first group of \<open>tokenCaptureRegex\<close>.  The quoted alternative opens with one of the
  three quote characters, which the back reference \<open>\2\<close> then stands for: the body is
  any run of characters other than the quote (and line terminators) or doubled quotes,
  up to the closing quote.
\<close>

definition quoted :: "char \<Rightarrow> rx" where
  "quoted q =
     Seq (Sym (\<lambda>c. c = q))
       (Seq (Star (Alt (Sym (\<lambda>c. c \<noteq> q \<and> dot c)) (Seq (Sym (\<lambda>c. c = q)) (Sym (\<lambda>c. c = q)))))
            (Sym (\<lambda>c. c = q)))"

definition tokenGroup :: rx where
  "tokenGroup =
     Alt (Alt (quoted (CHR 0x60)) (Alt (quoted (CHR 0x22)) (quoted (CHR 0x27))))
    (Alt (Plus (Sym (\<lambda>c. is_word c \<or> is_digit c \<or> is_space c)))
         (Sym (\<lambda>c. c \<in> set ''().,;+-'')))"

text \<open>
  \<open>tokenCaptureRegex.exec(s)\<close>: the captured token (group 1) and the length of the whole
  match, \<open>\s*\<close> included, for the first way to match in backtracking order.
\<close>

definition tokenCapture :: "string \<Rightarrow> (string \<times> nat) option" where
  "tokenCapture s =
     (case concat (map (\<lambda>i. map (\<lambda>j. (i, j)) (matches tokenGroup (drop i s)))
                     (matches (Star (Sym is_space)) s)) of
        [] \<Rightarrow> None
      | (i, j) # ms \<Rightarrow> Some (take j (drop i s), i + j))"

text \<open>\<open>m.indexOf('(')\<close> for a text that has the character.\<close>

definition indexOf_paren :: "string \<Rightarrow> nat" where
  "indexOf_paren m = length (takeWhile (\<lambda>c. c \<noteq> CHR ''('') m)"

record scan_state =
  currentIndex :: nat
  openingBrackets :: nat
  closingBrackets :: nat
  hasJsonFunction :: bool
  hasInvalidToken :: bool

text \<open>
  One pass through the body of the \<open>while\<close> loop from a state at its head: the loop
  goes on with the next state, or is left (the condition fails, or a \<open>break\<close>).
\<close>

datatype 'a flow = Continue 'a | Leave 'a

definition loop_body :: "string \<Rightarrow> scan_state \<Rightarrow> scan_state flow" where
  "loop_body stmt st =
     (if currentIndex st < length stmt
      then (case exec jsonFunctionRegex (drop (currentIndex st) stmt) of
              Some m \<Rightarrow>
                Continue (st\<lparr>currentIndex := currentIndex st + indexOf_paren m, hasJsonFunction := True\<rparr>)
            | None \<Rightarrow>
                (case exec jsonOperatorRegex (drop (currentIndex st) stmt) of
                   Some m \<Rightarrow>
                     Continue (st\<lparr>currentIndex := currentIndex st + length m, hasJsonFunction := True\<rparr>)
                 | None \<Rightarrow>
                     (case tokenCapture (drop (currentIndex st) stmt) of
                        Some (capturedToken, n) \<Rightarrow>
                          if capturedToken = ''(''
                          then Continue (st\<lparr>openingBrackets := Suc (openingBrackets st),
                                            currentIndex := currentIndex st + n\<rparr>)
                          else if capturedToken = '')''
                          then Continue (st\<lparr>closingBrackets := Suc (closingBrackets st),
                                            currentIndex := currentIndex st + n\<rparr>)
                          else if capturedToken = '';''
                          then Leave (st\<lparr>hasInvalidToken := True\<rparr>)
                          else Continue (st\<lparr>currentIndex := currentIndex st + n\<rparr>)
                      | None \<Rightarrow> Leave st)))
      else Leave st)"

text \<open>
  The loop, from a state at its head to the state it is left with; a loop that does not
  end has no such state.
\<close>

partial_function (option) scan :: "string \<Rightarrow> scan_state \<Rightarrow> scan_state option" where
  "scan stmt st =
     (case loop_body stmt st of
        Continue st' \<Rightarrow> scan stmt st'
      | Leave st' \<Rightarrow> Some st')"

definition scan_start :: scan_state where
  "scan_start = \<lparr>currentIndex = 0, openingBrackets = 0, closingBrackets = 0,
                  hasJsonFunction = False, hasInvalidToken = False\<rparr>"

text \<open>
  The function: \<open>None\<close> if the loop did not end, otherwise the error thrown or the
  boolean returned.  A statement that is not a string gives false.
\<close>

definition checkValidJsonStatement :: "js_prim \<Rightarrow> (js_error + bool) option" where
  "checkValidJsonStatement stmt =
     (case stmt of
        Str s \<Rightarrow>
          (case scan s scan_start of
             None \<Rightarrow> None
           | Some st \<Rightarrow>
               if hasJsonFunction st
                  \<and> (hasInvalidToken st \<or> openingBrackets st \<noteq> closingBrackets st)
               then Some (Inl (Error (''Invalid json statement: '' @ s)))
               else Some (Inr (hasJsonFunction st)))
      | _ \<Rightarrow> Some (Inr False))"

text \<open>
  What the loop does at a state: it recognizes a JSON function call or operator, or it
  captures a token; and the states the loop passes through from a given one.
\<close>

definition recognizes :: "string \<Rightarrow> scan_state \<Rightarrow> bool" where
  "recognizes stmt st =
     (currentIndex st < length stmt
      \<and> (exec jsonFunctionRegex (drop (currentIndex st) stmt) \<noteq> None
         \<or> exec jsonOperatorRegex (drop (currentIndex st) stmt) \<noteq> None))"

definition captures :: "string \<Rightarrow> scan_state \<Rightarrow> string \<Rightarrow> bool" where
  "captures stmt st tok =
     (currentIndex st < length stmt
      \<and> exec jsonFunctionRegex (drop (currentIndex st) stmt) = None
      \<and> exec jsonOperatorRegex (drop (currentIndex st) stmt) = None
      \<and> (case tokenCapture (drop (currentIndex st) stmt) of
            None \<Rightarrow> False
          | Some (capturedToken, n) \<Rightarrow> capturedToken = tok))"

inductive passes :: "string \<Rightarrow> scan_state \<Rightarrow> scan_state \<Rightarrow> bool" for stmt :: string and st :: scan_state where
  passes_here: "passes stmt st st"
| passes_on: "passes stmt st st' \<Longrightarrow> loop_body stmt st' = Continue st'' \<Longrightarrow> passes stmt st st''"

text \<open>
  Whether an expression can match the empty string, and whether a match of it can start
  with a given character.
\<close>

fun nullable :: "rx \<Rightarrow> bool" where
  "nullable Eps = True"
| "nullable (Sym p) = False"
| "nullable (Seq a b) = (nullable a \<and> nullable b)"
| "nullable (Alt a b) = (nullable a \<or> nullable b)"
| "nullable (Star a) = True"
| "nullable (LazyStar a) = True"

fun starts :: "rx \<Rightarrow> char \<Rightarrow> bool" where
  "starts Eps c = False"
| "starts (Sym p) c = p c"
| "starts (Seq a b) c = (starts a c \<or> (nullable a \<and> starts b c))"
| "starts (Alt a b) c = (starts a c \<or> starts b c)"
| "starts (Star a) c = starts a c"
| "starts (LazyStar a) c = starts a c"

subsection \<open>A generator and a model to evaluate with\<close>

text \<open>
  An instance of the inherited functions for evaluating the generator at concrete
  inputs: identifiers and tables in double quotes (the quoting \<open>upsertQuery\<close> itself
  expects when it compares a field with \<open>"id"\<close>), strings in single quotes, bind
  parameters numbered \<open>$1\<close>, \<open>$2\<close>, ...
\<close>

definition sample_escape :: "js_value \<Rightarrow> string" where
  "sample_escape v =
     (case v of
        Prim (Str s) \<Rightarrow> [CHR 0x27] @ s @ [CHR 0x27]
      | Prim p \<Rightarrow> to_string p
      | SequelizeMethod x \<Rightarrow> x)"

definition sample_generator :: generator where
  "sample_generator =
     \<lparr>quoteIdentifier = (\<lambda>s. ''\"'' @ s @ ''\"''),
      quoteTable = (\<lambda>s. ''\"'' @ s @ ''\"''),
      escape = sample_escape,
      escapeInsert = (\<lambda>v a. sample_escape v),
      formatInsert = (\<lambda>v a custom bind. (''$'' @ show_nat (Suc (length bind)), bind @ [v])),
      defaultValueSchemable = (\<lambda>v. v \<noteq> Prim Undefined),
      removeNullValuesFromHash =
        (\<lambda>kvs omit. if omit then filter (\<lambda>(k, v). v \<noteq> Prim Null \<and> v \<noteq> Prim Undefined) kvs else kvs),
      omitNull = False,
      generator_options = \<lparr>bindParam = BindUndefined, searchPath = Undefined, exception = Undefined\<rparr>,
      prependSearchPath = False,
      supports_EXCEPTION = False\<rparr>"

definition column :: "string \<Rightarrow> attribute" where
  "column t = type_only \<lparr>type_toString = t, type_binary = False\<rparr>"



subsection \<open>The layout of the CREATE TABLE statement\<close>

text \<open>
  The two parts into which the generator splits a type with a REFERENCES clause, the
  column definition and the trailing clauses it emits for a column, and the composite
  primary key clause over the columns whose type has PRIMARY KEY.
\<close>

definition type_part :: "string \<Rightarrow> string" where
  "type_part dataType = fst (the (references_match dataType))"

definition references_part :: "string \<Rightarrow> string" where
  "references_part dataType = snd (the (references_match dataType))"

definition column_definition :: "generator \<Rightarrow> string \<times> string \<Rightarrow> string" where
  "column_definition g = (\<lambda>(attr, dataType).
     quoteIdentifier g attr @ '' ''
     @ (if js_includes dataType ''REFERENCES''
        then (if js_includes dataType ''PRIMARY KEY''
              then replace_first ''PRIMARY KEY'' [] (type_part dataType)
              else type_part dataType)
        else if js_includes dataType ''PRIMARY KEY'' then replace_first ''PRIMARY KEY'' [] dataType
        else if js_includes dataType ''JSON''
        then dataType @ '' CHECK ('' @ quoteIdentifier g attr @ '' IS JSON(LAX))''
        else dataType))"

definition foreign_key_clause :: "generator \<Rightarrow> string \<times> string \<Rightarrow> string" where
  "foreign_key_clause g = (\<lambda>(attr, dataType).
     ''FOREIGN KEY ('' @ quoteIdentifier g attr @ '') '' @ references_part dataType)"

definition primary_key_clause :: "generator \<Rightarrow> (string \<times> string) list \<Rightarrow> string list" where
  "primary_key_clause g attributes =
     (let pks = map fst (filter (\<lambda>(attr, dataType). js_includes dataType ''PRIMARY KEY'') attributes)
      in if pks = [] then []
         else [''PRIMARY KEY ('' @ join '', '' (map (quoteIdentifier g) pks) @ '')''])"

definition orders_table :: "(string \<times> string) list" where
  "orders_table =
     [(''id'', ''INTEGER auto_increment PRIMARY KEY''),
      (''owner'', ''INTEGER REFERENCES \"users\" (\"id\")'')]"

subsection \<open>What the update clause assigns\<close>


section \<open>Query: \<open>formatError\<close> (\<open>query.js\<close>)\<close>

text \<open>
  The error a failed statement comes back with, and the part of the query object that
  \<open>formatError\<close> reads: the model's unique keys by name, the instance, and
  \<open>getUniqueConstraintErrorMessage\<close> of the abstract query class, which is not part of
  the sources at hand.
\<close>

record db_error =
  errno :: js_prim
  code :: js_prim
  error_message :: string

record model_unique_key =
  msg :: string
  key_fields :: "string list"

record format_query =
  model_uniqueKeys :: "(string \<times> model_unique_key) list option"
  instance_values :: "(string \<times> js_prim) list option"
  getUniqueConstraintErrorMessage :: "string \<Rightarrow> string"

text \<open>
  Modelled from the spec: the error classes of \<open>lib/errors\<close> are not part of the
  sources at hand; each error keeps the options it is constructed from, the original
  error among them as \<open>parent\<close>.
\<close>

datatype validation_error_item =
  ValidationErrorItem string string string js_prim "(string \<times> js_prim) list option" string

record unique_constraint_error =
  uce_message :: string
  uce_errors :: "validation_error_item list"
  uce_parent :: db_error
  uce_fields :: "(string \<times> js_prim) list"
  uce_stack :: js_prim

record foreign_key_constraint_error =
  fk_reltype :: string
  fk_table :: js_prim
  fk_fields :: "string list option"
  fk_value :: js_prim
  fk_index :: js_prim
  fk_parent :: db_error
  fk_stack :: js_prim

datatype database_error =
    UniqueConstraintError unique_constraint_error
  | ForeignKeyConstraintError foreign_key_constraint_error
  | DatabaseError db_error js_prim

text \<open>
  An identifier that the module does not declare is read from the global object, and
  reading one that is not there throws a ReferenceError.
\<close>

definition read_global :: "(string \<rightharpoonup> js_prim) \<Rightarrow> string \<Rightarrow> js_error + js_prim" where
  "read_global globals name =
     (case globals name of
        None \<Rightarrow> Inl (ReferenceError (name @ '' is not defined''))
      | Some v \<Rightarrow> Inr v)"

text \<open>
  \<open>s.split(sep)\<close> for a separator pattern that matches no empty string: the pieces
  between the matches found from left to right.  \<open>skip\<close> counts the characters of the
  current match still to pass.
\<close>

fun split_rx :: "rx \<Rightarrow> nat \<Rightarrow> string \<Rightarrow> string \<Rightarrow> string list" where
  "split_rx r skip cur [] = [cur]"
| "split_rx r skip cur (c # cs) =
     (if 0 < skip then split_rx r (skip - 1) cur cs
      else (case matches r (c # cs) of
              [] \<Rightarrow> split_rx r 0 (cur @ [c]) cs
            | n # ns \<Rightarrow>
                if 0 < n then cur # split_rx r (n - 1) [] cs
                else split_rx r 0 (cur @ [c]) cs))"

definition split :: "string \<Rightarrow> string \<Rightarrow> string list" where
  "split sep s = split_rx (lit sep) 0 [] s"

definition after_lit :: "string \<Rightarrow> string \<Rightarrow> string option" where
  "after_lit w s = (if prefix w s then Some (drop (length w) s) else None)"

definition first_of :: "'a list \<Rightarrow> 'a option" where
  "first_of xs = (case xs of [] \<Rightarrow> None | x # rest \<Rightarrow> Some x)"

text \<open>
  \<open>err.message.match(/Duplicate entry '([\s\S]*)' for key '?((.|\s)*?)'?$/)\<close>: the
  groups 1 and 2 of the first match in backtracking order, the start positions being
  tried from the left; \<open>None\<close> is null.
\<close>

definition duplicate_entry_match :: "string \<Rightarrow> (string \<times> string) option" where
  "duplicate_entry_match s =
     first_of (concat (map (\<lambda>k.
       case after_lit (''Duplicate entry '' @ [CHR 0x27]) (drop k s) of
         None \<Rightarrow> []
       | Some s1 \<Rightarrow>
           concat (map (\<lambda>i.
             case after_lit ([CHR 0x27] @ '' for key '') (drop i s1) of
               None \<Rightarrow> []
             | Some s2 \<Rightarrow>
                 concat (map (\<lambda>q1.
                   concat (map (\<lambda>j.
                     concat (map (\<lambda>q2.
                       if q1 + j + q2 = length s2
                       then [(take i s1, take j (drop q1 s2))] else [])
                       (matches (Opt (Sym (\<lambda>c. c = CHR 0x27))) (drop (q1 + j) s2))))
                     (matches (LazyStar (Alt (Sym dot) (Sym is_space))) (drop q1 s2))))
                   (matches (Opt (Sym (\<lambda>c. c = CHR 0x27))) s2)))
             (matches (Star (Sym (\<lambda>c. True))) s1)))
       [0..<Suc (length s)]))"

text \<open>
  The pattern of the foreign key messages, with the quote character of group 1 for its
  back references: the groups 1 to 5 of the first match.
\<close>

definition foreign_key_match :: "string \<Rightarrow> (char \<times> string \<times> string \<times> string \<times> string) option" where
  "foreign_key_match s =
     first_of (concat (map (\<lambda>k. concat (map (\<lambda>q.
       case after_lit (''CONSTRAINT '' @ [q]) (drop k s) of
         None \<Rightarrow> []
       | Some s2 \<Rightarrow>
           concat (map (\<lambda>i2.
             case after_lit ([q] @ '' FOREIGN KEY ('' @ [q]) (drop i2 s2) of
               None \<Rightarrow> []
             | Some s3 \<Rightarrow>
                 concat (map (\<lambda>i3.
                   case after_lit ([q] @ '') REFERENCES '' @ [q]) (drop i3 s3) of
                     None \<Rightarrow> []
                   | Some s4 \<Rightarrow>
                       concat (map (\<lambda>i4.
                         case after_lit ([q] @ '' ('' @ [q]) (drop i4 s4) of
                           None \<Rightarrow> []
                         | Some s5 \<Rightarrow>
                             concat (map (\<lambda>i5.
                               case after_lit ([q] @ '')'') (drop i5 s5) of
                                 None \<Rightarrow> []
                               | Some rest \<Rightarrow> [(q, take i2 s2, take i3 s3, take i4 s4, take i5 s5)])
                               (matches (Star (Sym dot)) s5)))
                         (matches (Star (Sym dot)) s4)))
                   (matches (Star (Sym dot)) s3)))
             (matches (Star (Sym dot)) s2)))
       [CHR 0x60, CHR 0x22]))
       [0..<Suc (length s)]))"

text \<open>
  An object built here is the list of its properties in the order of their creation.
  \<open>_.zipObject(props, values)\<close> builds one; a value that is missing is undefined.
\<close>

fun zipObject :: "string list \<Rightarrow> string list \<Rightarrow> (string \<times> js_prim) list \<Rightarrow> (string \<times> js_prim) list" where
  "zipObject [] vals acc = acc"
| "zipObject (p # props) [] acc = zipObject props [] (assign p Undefined acc)"
| "zipObject (p # props) (v # vals) acc = zipObject props vals (assign p (Str v) acc)"

text \<open>
  The order in which \<open>_.forOwn\<close> walks an object: the property names that are array
  indices (decimal numerals without a leading zero, below \<open>2^32 - 1\<close>) in ascending
  order first, then the other names in the order of their creation.
\<close>

definition index_value :: "string \<Rightarrow> nat" where
  "index_value k = foldl (\<lambda>n c. 10 * n + (of_char c - 48)) 0 k"

definition is_array_index :: "string \<Rightarrow> bool" where
  "is_array_index k =
     (k \<noteq> [] \<and> list_all is_digit k \<and> (length k = 1 \<or> hd k \<noteq> CHR ''0'')
      \<and> index_value k < 4294967295)"

definition forOwn_order :: "(string \<times> 'v) list \<Rightarrow> (string \<times> 'v) list" where
  "forOwn_order kvs =
     sort_key (\<lambda>(k, v). index_value k) (filter (\<lambda>(k, v). is_array_index k) kvs)
     @ filter (\<lambda>(k, v). \<not> is_array_index k) kvs"

text \<open>The block of \<open>case ER_DUP_ENTRY\<close>.\<close>

definition duplicate_entry ::
  "format_query \<Rightarrow> (string \<rightharpoonup> js_prim) \<Rightarrow> db_error \<Rightarrow> js_error + database_error" where
  "duplicate_entry q globals err =
     (let match = duplicate_entry_match (error_message err);
          fieldKey = (case match of None \<Rightarrow> ''undefined'' | Some (m1, m2) \<Rightarrow> last (split ''.'' m2));
          fieldVal = (case match of None \<Rightarrow> Undefined | Some (m1, m2) \<Rightarrow> Str m1);
          uniqueKey = (case model_uniqueKeys q of None \<Rightarrow> None | Some keys \<Rightarrow> map_of keys fieldKey);
          message = (case uniqueKey of
                       Some key \<Rightarrow> if msg key \<noteq> [] then msg key else ''Validation error''
                     | None \<Rightarrow> ''Validation error'');
          fields = (case uniqueKey of
                      Some key \<Rightarrow>
                        zipObject (key_fields key)
                          (case match of None \<Rightarrow> [] | Some (m1, m2) \<Rightarrow> split ''-'' m1) []
                    | None \<Rightarrow> [(fieldKey, fieldVal)]);
          errors = map (\<lambda>(field, val).
                          ValidationErrorItem (getUniqueConstraintErrorMessage q field)
                            ''unique violation'' field val (instance_values q) ''not_unique'')
                     (forOwn_order fields)
      in case read_global globals ''errStack'' of
           Inl e \<Rightarrow> Inl e
         | Inr errStack \<Rightarrow>
             Inr (UniqueConstraintError
                    \<lparr>uce_message = message, uce_errors = errors, uce_parent = err,
                     uce_fields = fields, uce_stack = errStack\<rparr>))"

text \<open>The block of \<open>case ER_ROW_IS_REFERENCED\<close> and \<open>case ER_NO_REFERENCED_ROW\<close>.\<close>

definition foreign_key_violation ::
  "format_query \<Rightarrow> (string \<rightharpoonup> js_prim) \<Rightarrow> db_error \<Rightarrow> js_prim \<Rightarrow> js_error + database_error" where
  "foreign_key_violation q globals err errCode' =
     (let match = foreign_key_match (error_message err);
          quoteChar = (case match of None \<Rightarrow> CHR 0x60 | Some (g1, g2, g3, g4, g5) \<Rightarrow> g1);
          fields = (case match of
                      None \<Rightarrow> None
                    | Some (g1, g2, g3, g4, g5) \<Rightarrow>
                        Some (split_rx
                                (Seq (Sym (\<lambda>c. c = quoteChar))
                                  (Seq (Sym (\<lambda>c. c = CHR '',''))
                                    (Seq (Star (Sym (\<lambda>c. c = CHR '' ''))) (Sym (\<lambda>c. c = quoteChar)))))
                                0 [] g3))
      in case read_global globals ''ER_ROW_IS_REFERENCED'' of
           Inl e \<Rightarrow> Inl e
         | Inr referenced \<Rightarrow>
             (case read_global globals ''errStack'' of
                Inl e \<Rightarrow> Inl e
              | Inr errStack \<Rightarrow>
                  Inr (ForeignKeyConstraintError
                         \<lparr>fk_reltype = (if to_string errCode' = to_string referenced
                                        then ''parent'' else ''child''),
                          fk_table = (case match of None \<Rightarrow> Undefined
                                      | Some (g1, g2, g3, g4, g5) \<Rightarrow> Str g4),
                          fk_fields = fields,
                          fk_value = (case fields of
                                        None \<Rightarrow> Undefined
                                      | Some fs \<Rightarrow>
                                          (case instance_values q of
                                             None \<Rightarrow> Undefined
                                           | Some inst \<Rightarrow>
                                               (case map_of inst (hd fs) of
                                                  None \<Rightarrow> Undefined
                                                | Some v \<Rightarrow> if truthy v then v else Undefined))),
                          fk_index = (case match of None \<Rightarrow> Undefined
                                      | Some (g1, g2, g3, g4, g5) \<Rightarrow> Str g2),
                          fk_parent = err,
                          fk_stack = errStack\<rparr>)))"

text \<open>
  \<open>formatError\<close>: the \<open>switch\<close> reads the case labels in order, comparing with \<open>===\<close>,
  until one is equal to \<open>errCode\<close>.
\<close>

definition formatError ::
  "format_query \<Rightarrow> (string \<rightharpoonup> js_prim) \<Rightarrow> db_error \<Rightarrow> js_error + database_error" where
  "formatError q globals err =
     (let errCode' = (if truthy (errno err) then errno err else code err)
      in case read_global globals ''ER_DUP_ENTRY'' of
           Inl e \<Rightarrow> Inl e
         | Inr dup \<Rightarrow>
             if errCode' = dup then duplicate_entry q globals err
             else (case read_global globals ''ER_ROW_IS_REFERENCED'' of
                     Inl e \<Rightarrow> Inl e
                   | Inr referenced \<Rightarrow>
                       if errCode' = referenced then foreign_key_violation q globals err errCode'
                       else (case read_global globals ''ER_NO_REFERENCED_ROW'' of
                               Inl e \<Rightarrow> Inl e
                             | Inr no_row \<Rightarrow>
                                 if errCode' = no_row then foreign_key_violation q globals err errCode'
                                 else (case read_global globals ''errStack'' of
                                         Inl e \<Rightarrow> Inl e
                                       | Inr errStack \<Rightarrow> Inr (DatabaseError err errStack)))))"

text \<open>
  A query on a model with the unique key \<open>name_secret\<close> over \<open>name\<close> and \<open>secretValue\<close>,
  and the duplicate entry error of the driver.
\<close>

definition users_query :: format_query where
  "users_query =
     \<lparr>model_uniqueKeys = Some [(''name_secret'', \<lparr>msg = [], key_fields = [''name'', ''secretValue'']\<rparr>)],
      instance_values = None,
      getUniqueConstraintErrorMessage = (\<lambda>field. field @ '' must be unique'')\<rparr>"

definition duplicate_john :: db_error where
  "duplicate_john =
     \<lparr>errno = Num 1062, code = Str ''ER_DUP_ENTRY'',
      error_message = ''Duplicate entry 'john-7' for key 'users.name_secret'' @ [CHR 0x27]\<rparr>"

text \<open>
  A global object on which the four names \<open>formatError\<close> reads are defined, with the
  error numbers of the driver's protocol.
\<close>

definition declared_constants :: "string \<rightharpoonup> js_prim" where
  "declared_constants =
     [''ER_DUP_ENTRY'' \<mapsto> Num 1062, ''ER_ROW_IS_REFERENCED'' \<mapsto> Num 1451,
      ''ER_NO_REFERENCED_ROW'' \<mapsto> Num 1452, ''errStack'' \<mapsto> Str ''Error'']"

section \<open>Properties of the connection manager\<close>

lemma parent_classify: "parent (classify err) = err"
  by (simp add: classify_def)

text \<open>
  Claim C8.  \<open>validate\<close> reads only the four flags of the connection it is given: for a
  present connection it returns false whenever one of fatal-error, protocol-error,
  closing, closed is set, and true when all four are clear.
\<close>

theorem validate_flags:
  "(c_fatalError c \<or> c_protocolError c \<or> c_closing c \<or> c_closed c
      \<longrightarrow> validate (Some c) = Boolean False)
   \<and> (\<not> c_fatalError c \<and> \<not> c_protocolError c \<and> \<not> c_closing c \<and> \<not> c_closed c
      \<longrightarrow> validate (Some c) = Boolean True)"
  by (simp add: validate_def)

theorem validate_flags_witness:
  "validate (Some \<lparr>c_fatalError = False, c_protocolError = False, c_closing = True, c_closed = False\<rparr>)
     = Boolean False
   \<and> validate (Some \<lparr>c_fatalError = False, c_protocolError = False, c_closing = False, c_closed = False\<rparr>)
     = Boolean True"
  using validate_flags [of "\<lparr>c_fatalError = False, c_protocolError = False, c_closing = True, c_closed = False\<rparr>"]
        validate_flags [of "\<lparr>c_fatalError = False, c_protocolError = False, c_closing = False, c_closed = False\<rparr>"]
  by simp

text \<open>
  Claim C5.  The claim has \<open>disconnect\<close> return at once, without a driver call, for a
  connection that is closing or closed, as the comment in the source has it and as
  \<open>validate\<close> tells such a connection.  \<open>disconnect\<close> tests the closing flag only: a
  connection whose closed flag is set while its closing flag is clear still gets the
  driver's close call.
\<close>

theorem disconnect_closed_still_closes:
  "c_closed \<lparr>c_fatalError = False, c_protocolError = False, c_closing = False, c_closed = True\<rparr>
   \<and> driver_calls (disconnect close_ok
         \<lparr>c_fatalError = False, c_protocolError = False, c_closing = False, c_closed = True\<rparr>)
       = [DriverClose]"
  by (simp add: disconnect_def close_ok_def)

text \<open>
  What \<open>disconnect\<close> does by the closing flag.  For every connection whose closing
  flag is set, it resolves at once, makes no driver call and leaves the connection as it is; for every
  connection whose closing flag is clear it makes exactly one driver close call and
  settles with what the close callback reports: resolved when the callback reports no
  error (the connection then being in the state the driver's close left it in), rejected
  with the callback's error otherwise.
\<close>

lemma disconnect_closing_gate:
  "(c_closing conn \<longrightarrow>
      disconnect close conn = \<lparr>settled = Resolved, driver_calls = [], conn_after = conn\<rparr>)
   \<and> (\<not> c_closing conn \<longrightarrow>
      driver_calls (disconnect close conn) = [DriverClose]
      \<and> conn_after (disconnect close conn) = snd (close conn)
      \<and> settled (disconnect close conn)
          = (case fst (close conn) of None \<Rightarrow> Resolved | Some err \<Rightarrow> Rejected err))"
  by (cases "close conn") (auto simp: disconnect_def split: option.splits)

lemma disconnect_closing_gate_example:
  "disconnect close_ok \<lparr>c_fatalError = False, c_protocolError = False, c_closing = True, c_closed = False\<rparr>
     = \<lparr>settled = Resolved, driver_calls = [],
        conn_after = \<lparr>c_fatalError = False, c_protocolError = False, c_closing = True, c_closed = False\<rparr>\<rparr>
   \<and> driver_calls (disconnect close_ok
         \<lparr>c_fatalError = False, c_protocolError = False, c_closing = False, c_closed = False\<rparr>)
       = [DriverClose]
   \<and> c_closed (conn_after (disconnect close_ok
         \<lparr>c_fatalError = False, c_protocolError = False, c_closing = False, c_closed = False\<rparr>))
   \<and> settled (disconnect close_ok
         \<lparr>c_fatalError = False, c_protocolError = False, c_closing = False, c_closed = False\<rparr>)
       = Resolved"
  using disconnect_closing_gate [of "\<lparr>c_fatalError = False, c_protocolError = False, c_closing = True, c_closed = False\<rparr>" close_ok]
        disconnect_closing_gate [of "\<lparr>c_fatalError = False, c_protocolError = False, c_closing = False, c_closed = False\<rparr>" close_ok]
  by (simp add: close_ok_def)

text \<open>
  Claim C6.  Whenever the driver fails inside \<open>connect\<close> with an error \<open>err\<close>, \<open>connect\<close>
  fails with a typed error that depends on \<open>errCode\<close> alone: the five listed codes give
  their five classes and every other code (also a missing or non-string one) gives the
  generic \<open>ConnectionError\<close>; the typed error's parent is \<open>err\<close>.  When the driver does
  not fail, \<open>connect\<close> does not fail either.
\<close>

theorem connect_error_classification:
  "(driver_failure lib cfg = Some err \<longrightarrow>
      connect lib cfg = Inl
        (if errCode err = Str ''ECONNREFUSED'' then ConnectionRefusedError err
         else if errCode err = Str ''ER_ACCESS_DENIED_ERROR'' then AccessDeniedError err
         else if errCode err = Str ''ENOTFOUND'' then HostNotFoundError err
         else if errCode err = Str ''EHOSTUNREACH'' then HostNotReachableError err
         else if errCode err = Str ''EINVAL'' then InvalidConnectionError err
         else ConnectionError err))
   \<and> (\<forall>e. connect lib cfg = Inl e \<longrightarrow> driver_failure lib cfg = Some (parent e))
   \<and> (driver_failure lib cfg = None \<longrightarrow> (\<exists>conn. connect lib cfg = Inr conn))"
  by (auto simp: connect_def driver_failure_def classify_def split: sum.splits)

theorem connect_error_classification_witness:
  "connect refusing_lib local_config = Inl (ConnectionRefusedError refused)
   \<and> parent (ConnectionRefusedError refused) = refused"
  using connect_error_classification [of refusing_lib local_config refused]
  by (simp add: driver_failure_def refusing_lib_def refused_def)

section \<open>Properties of the data types\<close>

text \<open>
  Claim C9.  \<open>GEOMETRY.parse\<close> returns null when the driver value has no buffer or an
  empty one; otherwise it drops the first four bytes of the buffer and hands the rest to
  the WKB parser, whose GeoJSON value (or whose exception) is the result.
\<close>

theorem GEOMETRY_parse_strips_header:
  "(buffer v = None \<or> buffer v = Some [] \<longrightarrow> GEOMETRY_parse wkx v = Inr None)
   \<and> (\<forall>b. buffer v = Some b \<and> b \<noteq> [] \<longrightarrow>
         GEOMETRY_parse wkx v
           = (case wkx (drop 4 b) of Inl e \<Rightarrow> Inl e | Inr g \<Rightarrow> Inr (Some g)))"
  by (auto simp: GEOMETRY_parse_def split: option.splits sum.splits)

theorem GEOMETRY_parse_strips_header_witness:
  "GEOMETRY_parse (Inr :: 8 word list \<Rightarrow> unit + 8 word list) \<lparr>buffer = Some [0, 0, 0, 0, 1, 2]\<rparr> = Inr (Some [1, 2])
   \<and> GEOMETRY_parse (Inr :: 8 word list \<Rightarrow> unit + 8 word list) \<lparr>buffer = Some []\<rparr> = Inr None"
  using GEOMETRY_parse_strips_header [of "\<lparr>buffer = Some [0, 0, 0, 0, 1, 2 :: 8 word]\<rparr>" Inr]
        GEOMETRY_parse_strips_header [of "\<lparr>buffer = Some ([] :: 8 word list)\<rparr>" Inr]
  by simp

section \<open>Properties of the query\<close>

text \<open>
  A block \<open>m\<close> that no occurrence of the pattern can reach into from the left, and that
  the scan turns into \<open>m'\<close> when it stands first, is rewritten on its own wherever it
  stands.
\<close>

lemma replace_all_block:
  assumes ne: "p \<noteq> []"
    and O1: "\<And>k. 0 < k \<Longrightarrow> k < length p \<Longrightarrow> \<not> prefix (drop k p) (m @ v)"
    and hd: "replace_all p r (m @ v) = m' @ replace_all p r v"
  shows "replace_all p r (u @ m @ v) = replace_all p r u @ m' @ replace_all p r v"
proof (induction "length u" arbitrary: u rule: less_induct)
  case less
  show ?case
  proof (cases u)
    case Nil
    then show ?thesis by (simp add: hd)
  next
    case (Cons c cs)
    show ?thesis
    proof (cases "prefix p (c # cs)")
      case True
      then have len: "length p \<le> Suc (length cs)" by (auto dest: prefix_length_le)
      from True have pr: "prefix p (c # cs @ m @ v)"
        using prefix_prefix [of p "c # cs" "m @ v"] by simp
      have dr: "drop (length p - 1) (cs @ m @ v) = drop (length p - 1) cs @ m @ v"
        using len by simp
      have "length (drop (length p - 1) cs) < length u" using Cons by simp
      from less [OF this] show ?thesis using True pr dr ne Cons by simp
    next
      case False
      have np: "\<not> prefix p (c # cs @ m @ v)"
      proof
        assume pr: "prefix p (c # cs @ m @ v)"
        show False
        proof (cases "length p \<le> length (c # cs)")
          case True
          from pr have "prefix p ((c # cs) @ m @ v)" by simp
          with True have "prefix p (c # cs)"
            by (metis prefix_length_prefix prefixI)
          with False show False by simp
        next
          case F2: False
          let ?k = "length (c # cs)"
          from pr obtain z where z: "(c # cs) @ m @ v = p @ z" by (auto simp: prefix_def)
          have "prefix (c # cs) p" using z F2
            by (metis append_eq_append_conv2 nat_le_linear prefixI prefix_length_le)
          then obtain w where w: "p = (c # cs) @ w" by (auto simp: prefix_def)
          with z have "m @ v = w @ z" by simp
          then have "prefix (drop ?k p) (m @ v)" using w by (simp add: prefix_def)
          moreover have "0 < ?k" "?k < length p" using F2 by simp_all
          ultimately show False using O1 by blast
        qed
      qed
      have "length cs < length u" using Cons by simp
      from less [OF this] show ?thesis using False np Cons by simp
    qed
  qed
qed


lemma true_in_true:
  "replace_all '' = true'' '' = 1'' (u @ '' = true'' @ v)
     = replace_all '' = true'' '' = 1'' u @ '' = 1'' @ replace_all '' = true'' '' = 1'' v"
proof (rule replace_all_block)
  show "'' = true'' \<noteq> []" by simp
next
  fix k :: nat assume "0 < k" "k < length '' = true''"
  then have "k = 1 \<or> k = 2 \<or> k = 3 \<or> k = 4 \<or> k = 5 \<or> k = 6"
    by (simp, arith)
  then show "\<not> prefix (drop k '' = true'') ('' = true'' @ v)"
    by auto
next
  show "replace_all '' = true'' '' = 1'' ('' = true'' @ v) = '' = 1'' @ replace_all '' = true'' '' = 1'' v"
    by simp
qed

lemma false_in_false:
  "replace_all '' = false'' '' = 0'' (u @ '' = false'' @ v)
     = replace_all '' = false'' '' = 0'' u @ '' = 0'' @ replace_all '' = false'' '' = 0'' v"
proof (rule replace_all_block)
  show "'' = false'' \<noteq> []" by simp
next
  fix k :: nat assume "0 < k" "k < length '' = false''"
  then have "k = 1 \<or> k = 2 \<or> k = 3 \<or> k = 4 \<or> k = 5 \<or> k = 6 \<or> k = 7"
    by (simp, arith)
  then show "\<not> prefix (drop k '' = false'') ('' = false'' @ v)"
    by auto
next
  show "replace_all '' = false'' '' = 0'' ('' = false'' @ v) = '' = 0'' @ replace_all '' = false'' '' = 0'' v"
    by simp
qed

lemma one_in_false:
  "replace_all '' = false'' '' = 0'' (u @ '' = 1'' @ v)
     = replace_all '' = false'' '' = 0'' u @ '' = 1'' @ replace_all '' = false'' '' = 0'' v"
proof (rule replace_all_block)
  show "'' = false'' \<noteq> []" by simp
next
  fix k :: nat assume "0 < k" "k < length '' = false''"
  then have "k = 1 \<or> k = 2 \<or> k = 3 \<or> k = 4 \<or> k = 5 \<or> k = 6 \<or> k = 7"
    by (simp, arith)
  then show "\<not> prefix (drop k '' = false'') ('' = 1'' @ v)"
    by auto
next
  show "replace_all '' = false'' '' = 0'' ('' = 1'' @ v) = '' = 1'' @ replace_all '' = false'' '' = 0'' v"
    by simp
qed

lemma false_in_true:
  "replace_all '' = true'' '' = 1'' (u @ '' = false'' @ v)
     = replace_all '' = true'' '' = 1'' u @ '' = false'' @ replace_all '' = true'' '' = 1'' v"
proof (rule replace_all_block)
  show "'' = true'' \<noteq> []" by simp
next
  fix k :: nat assume "0 < k" "k < length '' = true''"
  then have "k = 1 \<or> k = 2 \<or> k = 3 \<or> k = 4 \<or> k = 5 \<or> k = 6"
    by (simp, arith)
  then show "\<not> prefix (drop k '' = true'') ('' = false'' @ v)"
    by auto
next
  show "replace_all '' = true'' '' = 1'' ('' = false'' @ v) = '' = false'' @ replace_all '' = true'' '' = 1'' v"
    by simp
qed

lemma replace_all_absent: "\<not> js_includes s p \<Longrightarrow> replace_all p r s = s"
  by (induction s) auto

lemma run_select_sql:
  "isSelectQuery q \<Longrightarrow>
     execute_sql (run q s ps) = replace_all '' = false'' '' = 0'' (replace_all '' = true'' '' = 1'' s)"
  by (simp add: run_def Let_def replace_all_absent)

text \<open>
  Claim C10.  For a SELECT query the text sent to the driver has every \<open> = true\<close>
  rewritten to \<open> = 1\<close> and every \<open> = false\<close> to \<open> = 0\<close>, whatever stands before and
  after the occurrence (the inside of a quoted literal included), and a text with
  neither is sent as it is; the text of a query of any other kind is sent unmodified.
\<close>

theorem run_rewrites_boolean_literals:
  "(isSelectQuery q \<longrightarrow>
      execute_sql (run q (a @ '' = true'' @ b) ps)
        = execute_sql (run q a ps) @ '' = 1'' @ execute_sql (run q b ps)
      \<and> execute_sql (run q (a @ '' = false'' @ b) ps)
        = execute_sql (run q a ps) @ '' = 0'' @ execute_sql (run q b ps)
      \<and> (\<not> js_includes a '' = true'' \<and> \<not> js_includes a '' = false''
           \<longrightarrow> execute_sql (run q a ps) = a))
   \<and> (\<not> isSelectQuery q \<longrightarrow> execute_sql (run q a ps) = a)"
proof -
  have "execute_sql (run q a ps) = a" if "\<not> isSelectQuery q"
    using that by (simp add: run_def Let_def)
  moreover have "execute_sql (run q a ps) = a"
    if "\<not> js_includes a '' = true'' \<and> \<not> js_includes a '' = false''"
    using that by (simp add: run_def Let_def)
  moreover have "execute_sql (run q (a @ '' = true'' @ b) ps)
        = execute_sql (run q a ps) @ '' = 1'' @ execute_sql (run q b ps)" if "isSelectQuery q"
    by (simp only: run_select_sql [OF that] true_in_true one_in_false)
  moreover have "execute_sql (run q (a @ '' = false'' @ b) ps)
        = execute_sql (run q a ps) @ '' = 0'' @ execute_sql (run q b ps)" if "isSelectQuery q"
    by (simp only: run_select_sql [OF that] false_in_true false_in_false)
  ultimately show ?thesis by blast
qed

theorem run_rewrites_boolean_literals_witness:
  "execute_sql (run \<lparr>kind = SELECT, maxRows = 0, outFormat = 0, resultSet = False, extendedMetaData = False\<rparr>
      (''SELECT 'a'' @ '' = true'' @ ''' AS b'') (None :: unit option))
     = ''SELECT 'a = 1' AS b''
   \<and> execute_sql (run \<lparr>kind = UPDATE, maxRows = 0, outFormat = 0, resultSet = False, extendedMetaData = False\<rparr>
      ''SET a = true'' (None :: unit option))
     = ''SET a = true''"
  using run_rewrites_boolean_literals [of
          "\<lparr>kind = SELECT, maxRows = 0, outFormat = 0, resultSet = False, extendedMetaData = False\<rparr>"
          "''SELECT 'a''" "''' AS b''" "None :: unit option"]
        run_rewrites_boolean_literals [of
          "\<lparr>kind = UPDATE, maxRows = 0, outFormat = 0, resultSet = False, extendedMetaData = False\<rparr>"
          "''SET a = true''" "[]" "None :: unit option"]
  by (simp add: isSelectQuery_def run_def Let_def)

section \<open>Properties of the query generator\<close>

subsection \<open>\<open>attributeToSQL\<close>\<close>

text \<open>
  Claim C7.  For an attribute whose rendered type is BLOB, TEXT, GEOMETRY or JSON the
  column definition has no DEFAULT clause: the default piece is empty, the definition
  is the type followed by the other clauses only, and it is the same whatever default
  value the attribute carries.
\<close>

theorem attributeToSQL_no_default:
  assumes "type_toString (atype a) = ''BLOB'' \<or> type_toString (atype a) = ''TEXT''
           \<or> type_toString (atype a) = ''GEOMETRY'' \<or> type_toString (atype a) = ''JSON''"
  shows "default_clause g a = []
         \<and> attributeToSQL g (PlainObject a) options
             = type_toString (atype a)
               @ (if allowNull a = Bool False then '' NOT NULL'' else [])
               @ (if truthy (autoIncrement a) then '' auto_increment'' else [])
               @ (if unique a = Bool True then '' UNIQUE'' else [])
               @ (if truthy (primaryKey a) then '' PRIMARY KEY'' else [])
               @ (if comment a \<noteq> [] then '' COMMENT '' @ escape g (Prim (Str (comment a))) else [])
               @ (if truthy (first a) then '' FIRST'' else [])
               @ (if after a \<noteq> [] then '' AFTER '' @ quoteIdentifier g (after a) else [])
               @ references_clause g a options
         \<and> attributeToSQL g (PlainObject (a\<lparr>defaultValue := d\<rparr>)) options
             = attributeToSQL g (PlainObject a) options"
proof -
  from assms have mem: "type_toString (atype a) \<in> typeWithoutDefault"
    by (auto simp: typeWithoutDefault_def)
  then have d0: "default_clause g a = []" and d1: "default_clause g (a\<lparr>defaultValue := d\<rparr>) = []"
    by (simp_all add: default_clause_def)
  have r: "references_clause g (a\<lparr>defaultValue := d\<rparr>) options = references_clause g a options"
    by (simp add: references_clause_def split: option.splits)
  show ?thesis
    using d0 d1 r by (simp add: attributeToSQL_def)
qed

theorem attributeToSQL_no_default_witness:
  "attributeToSQL sample_generator
     (PlainObject ((column ''TEXT'')\<lparr>defaultValue := Prim (Str ''x''), allowNull := Bool False\<rparr>)) None
     = ''TEXT NOT NULL''
   \<and> attributeToSQL sample_generator
     (PlainObject ((column ''VARCHAR(255)'')\<lparr>defaultValue := Prim (Str ''x''), allowNull := Bool False\<rparr>)) None
     = ''VARCHAR(255) NOT NULL DEFAULT 'x'' @ [CHR 0x27]"
  using attributeToSQL_no_default [of
          "(column ''TEXT'')\<lparr>defaultValue := Prim (Str ''x''), allowNull := Bool False\<rparr>"
          sample_generator None "Prim (Str ''x'')"]
  by (simp add: column_def type_only_def attributeToSQL_def default_clause_def references_clause_def
        typeWithoutDefault_def sample_generator_def sample_escape_def)

subsection \<open>\<open>upsertQuery\<close>\<close>

lemma join_Cons: "join sep (x # xs) = x @ (if xs = [] then [] else sep @ join sep xs)"
  by (cases xs) simp_all





subsection \<open>\<open>createTableQuery\<close>\<close>

lemma matches_lit: "matches (lit w) s = (if prefix w s then [length w] else [])"
proof (induction w arbitrary: s)
  case Nil
  then show ?case by (simp add: lit_def matches.simps(1))
next
  case (Cons c w)
  have unf: "lit (c # w) = Seq (Sym (\<lambda>x. x = c)) (lit w)" by (simp add: lit_def)
  show ?case
    by (cases s) (auto simp: unf Cons.IH matches.simps(2,3))
qed

lemma matches_Sym_Seq_pos: "n \<in> set (matches (Seq (Sym p) r) s) \<Longrightarrow> 0 < n"
  by (cases s) (auto simp: matches.simps(2,3) split: if_splits)

lemma references_match_SomeD:
  assumes "references_match s = Some (m1, m2)"
  shows "s = m1 @ '' '' @ m2 \<and> m1 \<noteq> [] \<and> prefix ''REFERENCES'' m2"
proof -
  let ?tail = "Seq (lit ''REFERENCES'') (Star (Sym dot))"
  let ?cands = "concat (map (\<lambda>i. if i < length s \<and> s ! i = CHR '' ''
                              then concat (map (\<lambda>j. if Suc i + j = length s
                                                     then [(take i s, take j (drop (Suc i) s))] else [])
                                            (matches ?tail (drop (Suc i) s)))
                              else [])
                     (matches (Plus (Sym dot)) s))"
  from assms obtain ms where "?cands = (m1, m2) # ms"
    by (simp add: references_match_def split: list.splits)
  then have "(m1, m2) \<in> set ?cands"
    by (metis list.set_intros(1))
  then obtain i j where i: "i \<in> set (matches (Plus (Sym dot)) s)" "i < length s" "s ! i = CHR '' ''"
    and j: "j \<in> set (matches ?tail (drop (Suc i) s))" "Suc i + j = length s"
    and m: "m1 = take i s" "m2 = take j (drop (Suc i) s)"
    by (auto split: if_splits)
  from j(2) have m2: "m2 = drop (Suc i) s" using m(2) by simp
  have "s = take i s @ s ! i # drop (Suc i) s" using i(2) by (rule id_take_nth_drop)
  then have eq: "s = m1 @ '' '' @ m2" unfolding m(1) m2 i(3) by simp
  from i(1) have "0 < i" unfolding Plus_def by (rule matches_Sym_Seq_pos)
  then have ne: "m1 \<noteq> []" using m(1) i(2) by auto
  from j(1) have "prefix ''REFERENCES'' m2" unfolding m2
    by (auto simp: matches.simps(3) matches_lit split: if_splits)
  with eq ne show ?thesis by blast
qed


lemma assign_fresh: "k \<notin> fst ` set kvs \<Longrightarrow> assign k v kvs = kvs @ [(k, v)]"
  by (induction kvs) auto

lemma attributes_loop_layout:
  assumes "distinct (map fst attributes)"
    and "fst ` set (foreignKeys st) \<inter> fst ` set attributes = {}"
    and "\<And>attr dataType. (attr, dataType) \<in> set attributes \<Longrightarrow> js_includes dataType ''REFERENCES''
           \<Longrightarrow> references_match dataType \<noteq> None"
  shows "attributes_loop g attributes st = Inr
           \<lparr>primaryKeys = primaryKeys st
               @ map fst (filter (\<lambda>(attr, dataType). js_includes dataType ''PRIMARY KEY'') attributes),
            foreignKeys = foreignKeys st
               @ map (\<lambda>(attr, dataType). (attr, references_part dataType))
                   (filter (\<lambda>(attr, dataType). js_includes dataType ''REFERENCES'') attributes),
            attrStr = attrStr st @ map (column_definition g) attributes\<rparr>"
  using assms
proof (induction attributes arbitrary: st)
  case Nil
  then show ?case by simp
next
  case (Cons ad attributes)
  obtain attr dataType where ad: "ad = (attr, dataType)" by (cases ad)
  have fresh: "attr \<notin> fst ` set (foreignKeys st)" using Cons.prems(2) ad by auto
  have d: "distinct (map fst attributes)" and nin: "attr \<notin> fst ` set attributes"
    using Cons.prems(1) ad by auto
  have rest: "\<And>a dt. (a, dt) \<in> set attributes \<Longrightarrow> js_includes dt ''REFERENCES''
           \<Longrightarrow> references_match dt \<noteq> None"
    using Cons.prems(3) by auto
  show ?case
  proof (cases "js_includes dataType ''REFERENCES''")
    case True
    then obtain m1 m2 where mm: "references_match dataType = Some (m1, m2)"
      using Cons.prems(3) [of attr dataType] ad by auto
    then have parts: "type_part dataType = m1" "references_part dataType = m2"
      by (simp_all add: type_part_def references_part_def)
    show ?thesis
    proof (cases "js_includes dataType ''PRIMARY KEY''")
      case pk: True
      let ?st' = "\<lparr>primaryKeys = primaryKeys st @ [attr],
                    foreignKeys = assign attr m2 (foreignKeys st),
                    attrStr = attrStr st @ [quoteIdentifier g attr @ '' '' @ replace_first ''PRIMARY KEY'' [] m1]\<rparr>"
      have "fst ` set (foreignKeys ?st') \<inter> fst ` set attributes = {}"
        using Cons.prems(2) nin fresh by (auto simp: assign_fresh)
      from Cons.IH [OF d this rest]
      show ?thesis using True pk mm parts fresh ad
        by (simp add: assign_fresh column_definition_def)
    next
      case npk: False
      let ?st' = "st\<lparr>foreignKeys := assign attr m2 (foreignKeys st),
                      attrStr := attrStr st @ [quoteIdentifier g attr @ '' '' @ m1]\<rparr>"
      have "fst ` set (foreignKeys ?st') \<inter> fst ` set attributes = {}"
        using Cons.prems(2) nin fresh by (auto simp: assign_fresh)
      from Cons.IH [OF d this rest]
      show ?thesis using True npk mm parts fresh ad
        by (simp add: assign_fresh column_definition_def)
    qed
  next
    case False
    have keep: "fst ` set (foreignKeys st) \<inter> fst ` set attributes = {}"
      using Cons.prems(2) by auto
    show ?thesis
    proof (cases "js_includes dataType ''PRIMARY KEY''")
      case pk: True
      let ?st' = "st\<lparr>primaryKeys := primaryKeys st @ [attr],
                       attrStr := attrStr st
                         @ [quoteIdentifier g attr @ '' '' @ replace_first ''PRIMARY KEY'' [] dataType]\<rparr>"
      have "fst ` set (foreignKeys ?st') \<inter> fst ` set attributes = {}" using keep by simp
      from Cons.IH [OF d this rest]
      show ?thesis using False pk ad by (simp add: column_definition_def)
    next
      case npk: False
      show ?thesis
      proof (cases "js_includes dataType ''JSON''")
        case True
        let ?st' = "st\<lparr>attrStr := attrStr st
                   @ [quoteIdentifier g attr @ '' '' @ dataType
                      @ '' CHECK ('' @ quoteIdentifier g attr @ '' IS JSON(LAX))'']\<rparr>"
        have "fst ` set (foreignKeys ?st') \<inter> fst ` set attributes = {}" using keep by simp
        from Cons.IH [OF d this rest]
        show ?thesis using False npk True ad by (simp add: column_definition_def)
      next
        case nj: False
        let ?st' = "st\<lparr>attrStr := attrStr st @ [quoteIdentifier g attr @ '' '' @ dataType]\<rparr>"
        have "fst ` set (foreignKeys ?st') \<inter> fst ` set attributes = {}" using keep by simp
        from Cons.IH [OF d this rest]
        show ?thesis using False npk nj ad by (simp add: column_definition_def)
      qed
    qed
  qed
qed


lemma join_nonempty: "xs \<noteq> [] \<Longrightarrow> (\<forall>x \<in> set xs. x \<noteq> []) \<Longrightarrow> join sep xs \<noteq> []"
  by (cases xs) (auto simp: join_Cons)

lemma orders_match: "references_match ''INTEGER REFERENCES \"users\" (\"id\")'' = Some (''INTEGER'', ''REFERENCES \"users\" (\"id\")'')"
  by code_simp

text \<open>
  Claim C3, as stated, fails: a type that contains REFERENCES with nothing before it does
  not match the pattern the generator splits it with, and \<open>createTableQuery\<close> throws
  instead of moving the clause.
\<close>

theorem createTableQuery_counterexample:
  "js_includes ''REFERENCES \"users\" (\"id\")'' ''REFERENCES''
   \<and> createTableQuery sample_generator ''orders'' [(''owner'', ''REFERENCES \"users\" (\"id\")'')]
         \<lparr>initialAutoIncrement = Undefined, uniqueKeys = None\<rparr>
       = Inl (TypeError ''Cannot read property '1' of null'')"
  by code_simp


text \<open>
  Claim C3, amended.  For a table whose column names are distinct, whose identifiers
  quote to non-empty text and in which every type containing REFERENCES matches
  \<open>^(.+) (REFERENCES.*)$\<close>, the statement lists the column definitions, then the
  unique constraints, then the single PRIMARY KEY clause over the columns whose type has
  PRIMARY KEY (when there is one), then one FOREIGN KEY clause for each column whose
  type contains REFERENCES; such a type is its column part, a space and its REFERENCES
  part, the column definition keeps the column part and the FOREIGN KEY clause carries
  the REFERENCES part.
\<close>

theorem createTableQuery_layout:
  assumes "distinct (map fst attributes)"
    and "\<forall>(attr, dataType) \<in> set attributes.
           js_includes dataType ''REFERENCES'' \<longrightarrow> references_match dataType \<noteq> None"
    and "\<forall>name. quoteIdentifier g name \<noteq> []"
  shows "createTableQuery g tableName attributes options = Inr
           (''CREATE TABLE IF NOT EXISTS '' @ quoteTable g tableName @ '' (''
            @ join '', '' (map (column_definition g) attributes)
            @ concat (map (\<lambda>clause. '', '' @ clause)
                (unique_constraints g tableName options
                 @ primary_key_clause g attributes
                 @ map (foreign_key_clause g)
                     (filter (\<lambda>(attr, dataType). js_includes dataType ''REFERENCES'') attributes)))
            @ '')''
            @ (if truthy (initialAutoIncrement options)
               then '' AUTO_INCREMENT='' @ to_string (initialAutoIncrement options) else [])
            @ '';'')
         \<and> (\<forall>(attr, dataType) \<in> set attributes.
               js_includes dataType ''REFERENCES'' \<longrightarrow>
                 dataType = type_part dataType @ '' '' @ references_part dataType
                 \<and> type_part dataType \<noteq> []
                 \<and> prefix ''REFERENCES'' (references_part dataType))"
proof -
  let ?pks = "map fst (filter (\<lambda>(attr, dataType). js_includes dataType ''PRIMARY KEY'') attributes)"
  let ?fks = "filter (\<lambda>(attr, dataType). js_includes dataType ''REFERENCES'') attributes"
  have m: "\<And>attr dataType. (attr, dataType) \<in> set attributes \<Longrightarrow> js_includes dataType ''REFERENCES''
             \<Longrightarrow> references_match dataType \<noteq> None"
    using assms(2) by auto
  have loop: "attributes_loop g attributes \<lparr>primaryKeys = [], foreignKeys = [], attrStr = []\<rparr> = Inr
           \<lparr>primaryKeys = ?pks,
            foreignKeys = map (\<lambda>(attr, dataType). (attr, references_part dataType)) ?fks,
            attrStr = map (column_definition g) attributes\<rparr>"
    using attributes_loop_layout [OF assms(1) _ m, where st = "\<lparr>primaryKeys = [], foreignKeys = [], attrStr = []\<rparr>" and g = g]
    by simp
  have pk: "(if 0 < length (join '', '' (map (quoteIdentifier g) ?pks))
             then '', PRIMARY KEY ('' @ join '', '' (map (quoteIdentifier g) ?pks) @ '')'' else [])
            = concat (map (\<lambda>clause. '', '' @ clause) (primary_key_clause g attributes))"
  proof (cases "?pks = []")
    case True
    then show ?thesis by (simp add: primary_key_clause_def)
  next
    case False
    then have "join '', '' (map (quoteIdentifier g) ?pks) \<noteq> []"
      using assms(3) by (intro join_nonempty) auto
    then show ?thesis using False by (simp add: primary_key_clause_def Let_def)
  qed
  have fk: "concat (map (\<lambda>(fkey, ref). '', FOREIGN KEY ('' @ quoteIdentifier g fkey @ '') '' @ ref)
                     (map (\<lambda>(attr, dataType). (attr, references_part dataType)) ?fks))
            = concat (map (\<lambda>clause. '', '' @ clause) (map (foreign_key_clause g) ?fks))"
    by (induction attributes) (auto simp: foreign_key_clause_def)
  have first: "createTableQuery g tableName attributes options = Inr
           (''CREATE TABLE IF NOT EXISTS '' @ quoteTable g tableName @ '' (''
            @ join '', '' (map (column_definition g) attributes)
            @ concat (map (\<lambda>clause. '', '' @ clause)
                (unique_constraints g tableName options
                 @ primary_key_clause g attributes
                 @ map (foreign_key_clause g) ?fks))
            @ '')''
            @ (if truthy (initialAutoIncrement options)
               then '' AUTO_INCREMENT='' @ to_string (initialAutoIncrement options) else [])
            @ '';'')"
    unfolding createTableQuery_def loop
    by (simp only: sum.case Let_def create_state.simps pk fk map_append concat_append append_assoc)
  have second: "dataType = type_part dataType @ '' '' @ references_part dataType
                 \<and> type_part dataType \<noteq> []
                 \<and> prefix ''REFERENCES'' (references_part dataType)"
    if "(attr, dataType) \<in> set attributes" "js_includes dataType ''REFERENCES''" for attr dataType
  proof -
    from m [OF that] obtain m1 m2 where mm: "references_match dataType = Some (m1, m2)" by auto
    have tp: "type_part dataType = m1" "references_part dataType = m2"
      by (simp_all add: type_part_def references_part_def mm)
    from references_match_SomeD [OF mm] show ?thesis
      unfolding tp by blast
  qed
  show ?thesis using first second by blast
qed

theorem createTableQuery_layout_witness:
  "createTableQuery sample_generator ''orders'' orders_table
     \<lparr>initialAutoIncrement = Undefined, uniqueKeys = None\<rparr>
   = Inr (''CREATE TABLE IF NOT EXISTS \"orders\" (\"id\" INTEGER auto_increment , \"owner\" INTEGER''
          @ '', PRIMARY KEY (\"id\"), FOREIGN KEY (\"owner\") REFERENCES \"users\" (\"id\"));'')"
proof -
  have h1: "distinct (map fst orders_table)"
    by (simp add: orders_table_def)
  have h2: "\<forall>(attr, dataType) \<in> set orders_table.
           js_includes dataType ''REFERENCES'' \<longrightarrow> references_match dataType \<noteq> None"
    by (simp add: orders_table_def orders_match)
  have h3: "\<forall>name. quoteIdentifier sample_generator name \<noteq> []"
    by (simp add: sample_generator_def)
  show ?thesis
    using createTableQuery_layout [OF h1 h2 h3, of "''orders''"
            "\<lparr>initialAutoIncrement = Undefined, uniqueKeys = None\<rparr>"]
    by (simp add: orders_table_def orders_match column_definition_def foreign_key_clause_def
          primary_key_clause_def unique_constraints_def type_part_def references_part_def
          sample_generator_def)
qed

subsection \<open>\<open>_checkValidJsonStatement\<close>\<close>

text \<open>
  The matcher: a match of length zero needs a nullable expression, a longer one starts
  with a character the expression can start with, and no match is longer than the text.
\<close>

lemma matches_Seq_iff:
  "n \<in> set (matches (Seq a b) s) \<longleftrightarrow> (\<exists>i \<in> set (matches a s). \<exists>j \<in> set (matches b (drop i s)). n = i + j)"
  by (auto simp: matches.simps(3))

lemma matches_Star_cases:
  assumes "n \<in> set (matches (Star a) s)"
  shows "n = 0 \<or> (\<exists>i \<in> set (matches a s). 0 < i \<and> i \<le> length s \<and> i \<le> n)"
  using assms by (subst (asm) matches.simps(5)) (auto split: if_splits)

lemma matches_LazyStar_cases:
  assumes "n \<in> set (matches (LazyStar a) s)"
  shows "n = 0 \<or> (\<exists>i \<in> set (matches a s). 0 < i \<and> i \<le> length s \<and> i \<le> n)"
  using assms by (subst (asm) matches.simps(6)) (auto split: if_splits)

lemma matches_nullable: "0 \<in> set (matches r s) \<Longrightarrow> nullable r"
proof (induction r arbitrary: s)
  case (Sym p)
  then show ?case by (auto simp: matches.simps(2) split: list.splits if_splits)
next
  case (Seq a b)
  then show ?case by (auto simp: matches_Seq_iff)
next
  case (Alt a b)
  then show ?case by (auto simp: matches.simps(4))
qed simp_all

lemma matches_starts: "n \<in> set (matches r (c # cs)) \<Longrightarrow> 0 < n \<Longrightarrow> starts r c"
proof (induction r arbitrary: n)
  case Eps
  then show ?case by (simp add: matches.simps(1))
next
  case (Sym p)
  then show ?case by (auto simp: matches.simps(2) split: if_splits)
next
  case (Seq a b)
  from Seq.prems(1) obtain i j where ij: "i \<in> set (matches a (c # cs))"
    "j \<in> set (matches b (drop i (c # cs)))" "n = i + j"
    by (auto simp: matches_Seq_iff)
  show ?case
  proof (cases "i = 0")
    case True
    then have "nullable a" using ij(1) matches_nullable by blast
    moreover have "starts b c" using Seq.IH(2) [of j] ij True Seq.prems(2) by simp
    ultimately show ?thesis by simp
  next
    case False
    then show ?thesis using Seq.IH(1) [of i] ij(1) by simp
  qed
next
  case (Alt a b)
  then show ?case by (auto simp: matches.simps(4))
next
  case (Star a)
  from matches_Star_cases [OF Star.prems(1)] Star.prems(2) Star.IH show ?case by auto
next
  case (LazyStar a)
  from matches_LazyStar_cases [OF LazyStar.prems(1)] LazyStar.prems(2) LazyStar.IH show ?case by auto
qed

lemma matches_Nil_nullable: "n \<in> set (matches r []) \<Longrightarrow> n = 0"
proof (induction r arbitrary: n)
  case (Star a)
  from matches_Star_cases [OF Star.prems] show ?case by auto
next
  case (LazyStar a)
  from matches_LazyStar_cases [OF LazyStar.prems] show ?case by auto
qed (auto simp: matches.simps(1,2,4) matches_Seq_iff)

lemma nullable_function [simp]: "\<not> nullable jsonFunctionRegex"
  by (simp add: jsonFunctionRegex_def)

lemma nullable_operator [simp]: "\<not> nullable jsonOperatorRegex"
  by (simp add: jsonOperatorRegex_def lit_def Opt_def)

lemma nullable_token [simp]: "\<not> nullable tokenGroup"
  by (simp add: tokenGroup_def quoted_def Plus_def)

lemma starts_function_paren: "\<not> starts jsonFunctionRegex (CHR ''('')"
  by (simp add: jsonFunctionRegex_def Rep02_def Plus_def Opt_def lit_i_def is_space_def is_alpha_def upper_char_def)

lemma matches_le: "n \<in> set (matches r s) \<Longrightarrow> n \<le> length s"
proof (induction r s arbitrary: n rule: matches.induct)
  case (1 s)
  then show ?case by (simp add: matches.simps(1))
next
  case (2 p s)
  then show ?case by (auto simp: matches.simps(2) split: list.splits if_splits)
next
  case (3 a b s)
  from "3.prems" obtain i j where ij: "i \<in> set (matches a s)" "j \<in> set (matches b (drop i s))" "n = i + j"
    by (auto simp: matches_Seq_iff)
  from "3.IH"(1) [OF ij(1)] "3.IH"(2) [OF ij(1) ij(2)] ij(3) show ?case by simp
next
  case (4 a b s)
  then show ?case by (auto simp: matches.simps(4))
next
  case (5 a s)
  from "5.prems" have "n = 0 \<or> (\<exists>i \<in> set (matches a s). 0 < i \<and> i \<le> length s
        \<and> (\<exists>j \<in> set (matches (Star a) (drop i s)). n = i + j))"
    by (subst (asm) matches.simps(5)) (auto split: if_splits)
  then show ?case using "5.IH"(2) by fastforce
next
  case (6 a s)
  from "6.prems" have "n = 0 \<or> (\<exists>i \<in> set (matches a s). 0 < i \<and> i \<le> length s
        \<and> (\<exists>j \<in> set (matches (LazyStar a) (drop i s)). n = i + j))"
    by (subst (asm) matches.simps(6)) (auto split: if_splits)
  then show ?case using "6.IH"(2) by fastforce
qed

lemma matches_SeqE:
  assumes "n \<in> set (matches (Seq a b) s)"
  obtains i j where "i \<in> set (matches a s)" "j \<in> set (matches b (drop i s))" "n = i + j"
  using assms matches_Seq_iff by blast

lemma function_match_has_paren:
  assumes "exec jsonFunctionRegex s = Some m"
  shows "indexOf_paren m < length m \<and> m ! indexOf_paren m = CHR ''(''"
proof -
  from assms obtain n where n: "n \<in> set (matches jsonFunctionRegex s)" "m = take n s"
    by (auto simp: exec_def split: list.splits)
  let ?A = "Star (Sym is_space)"
  let ?B = "Seq (Rep02 (Seq (Plus (Sym is_alpha)) (Sym (\<lambda>c. c = CHR ''_''))))
               (Seq (lit_i ''json'')
                 (Seq (Opt (Sym (\<lambda>c. upper_char c = CHR ''B'')))
                      (Rep02 (Seq (Sym (\<lambda>c. c = CHR ''_'')) (Plus (Sym is_alpha))))))"
  let ?P = "Sym (\<lambda>c. c = CHR ''('')"
  let ?C = "Seq (Star (Sym (\<lambda>c. c \<noteq> CHR '')''))) (Sym (\<lambda>c. c = CHR '')''))"
  have "n \<in> set (matches (Seq ?A (Seq ?B (Seq ?P ?C))) s)"
    using n(1) unfolding jsonFunctionRegex_def .
  then obtain i n1 where n1: "n1 \<in> set (matches (Seq ?B (Seq ?P ?C)) (drop i s))" and s1: "n = i + n1"
    by (rule matches_SeqE)
  from n1 obtain j n2 where n2: "n2 \<in> set (matches (Seq ?P ?C) (drop j (drop i s)))" and s2: "n1 = j + n2"
    by (rule matches_SeqE)
  from n2 obtain k l where k: "k \<in> set (matches ?P (drop j (drop i s)))" and s3: "n2 = k + l"
    by (rule matches_SeqE)
  have sum: "n = i + (j + (k + l))" using s1 s2 s3 by simp
  from k obtain rest where k1: "k = 1" and dr: "drop (i + j) s = CHR ''('' # rest"
    by (cases "drop j (drop i s)") (auto simp: matches.simps(2) add.commute split: if_splits)
  then have hd: "drop (i + j) s \<noteq> [] \<and> hd (drop (i + j) s) = CHR ''(''"
    by simp
  have le: "n \<le> length s" using n(1) by (rule matches_le)
  have lt: "i + j < length s" using hd by auto
  then have at: "s ! (i + j) = CHR ''(''" using hd by (simp add: hd_drop_conv_nth)
  have "CHR ''('' \<in> set m"
    unfolding n(2) in_set_conv_nth using at lt sum k1 le
    by (intro exI [of _ "i + j"]) simp
  then have "dropWhile (\<lambda>c. c \<noteq> CHR ''('') m \<noteq> []"
    by (auto simp: dropWhile_eq_Nil_conv)
  moreover have "length (takeWhile (\<lambda>c. c \<noteq> CHR ''('') m)
                   + length (dropWhile (\<lambda>c. c \<noteq> CHR ''('') m) = length m"
    by (metis length_append takeWhile_dropWhile_id)
  ultimately have "length (takeWhile (\<lambda>c. c \<noteq> CHR ''('') m) < length m"
    by (cases "dropWhile (\<lambda>c. c \<noteq> CHR ''('') m") auto
  then show ?thesis
    unfolding indexOf_paren_def
    using nth_length_takeWhile [of "\<lambda>c. c \<noteq> CHR ''(''" m] by simp
qed

text \<open>
  Each pass through the loop body that goes on moves the index forward, so the loop
  ends; a property that the passes keep holds where the loop is left.
\<close>

lemma exec_SomeD:
  assumes "exec r s = Some m"
  obtains n where "n \<in> set (matches r s)" "m = take n s"
  using assms by (auto simp: exec_def split: list.splits)

lemma matches_pos: "n \<in> set (matches r s) \<Longrightarrow> \<not> nullable r \<Longrightarrow> 0 < n"
  using matches_nullable [of r s] by (cases "n = 0") auto

lemma function_progress:
  assumes "exec jsonFunctionRegex s = Some m"
  shows "0 < indexOf_paren m"
proof -
  from assms obtain n where n: "n \<in> set (matches jsonFunctionRegex s)" "m = take n s"
    by (rule exec_SomeD)
  have pos: "0 < n" using n(1) by (rule matches_pos) simp
  then obtain c cs where s: "s = c # cs" using n(1) matches_Nil_nullable [of n jsonFunctionRegex]
    by (cases s) auto
  have "c \<noteq> CHR ''(''" using matches_starts [of n jsonFunctionRegex c cs] n(1) pos s starts_function_paren
    by auto
  moreover obtain k where "n = Suc k" using pos by (cases n) auto
  ultimately show ?thesis using n(2) s by (simp add: indexOf_paren_def)
qed

lemma operator_progress:
  assumes "exec jsonOperatorRegex s = Some m"
  shows "0 < length m"
proof -
  from assms obtain n where n: "n \<in> set (matches jsonOperatorRegex s)" "m = take n s"
    by (rule exec_SomeD)
  have pos: "0 < n" using n(1) by (rule matches_pos) simp
  then have "s \<noteq> []" using n(1) matches_Nil_nullable [of n jsonOperatorRegex] by auto
  then show ?thesis using pos n(2) by (cases s) auto
qed

lemma token_progress:
  assumes "tokenCapture s = Some (tok, n)"
  shows "0 < n"
proof -
  let ?cands = "concat (map (\<lambda>i. map (\<lambda>j. (i, j)) (matches tokenGroup (drop i s)))
                     (matches (Star (Sym is_space)) s))"
  from assms obtain i j ms where c: "?cands = (i, j) # ms" and n: "n = i + j"
    by (auto simp: tokenCapture_def split: list.splits)
  then have "(i, j) \<in> set ?cands" by (metis list.set_intros(1))
  then have "j \<in> set (matches tokenGroup (drop i s))" by auto
  then have "0 < j" by (rule matches_pos) simp
  then show ?thesis using n by simp
qed

lemma loop_body_progress:
  assumes "loop_body stmt st = Continue st'"
  shows "currentIndex st < length stmt \<and> currentIndex st < currentIndex st'"
  using assms
  by (auto simp: loop_body_def split: if_splits option.splits prod.splits
        dest: function_progress operator_progress token_progress)

lemma loop_body_hasJson:
  assumes "loop_body stmt st = Continue st'" "hasJsonFunction st"
  shows "hasJsonFunction st'"
  using assms
  by (auto simp: loop_body_def split: if_splits option.splits prod.splits)

lemma loop_body_Leave_hasJson:
  assumes "loop_body stmt st = Leave st'"
  shows "hasJsonFunction st' = hasJsonFunction st"
  using assms
  by (auto simp: loop_body_def split: if_splits option.splits prod.splits)

lemma scan_ends:
  assumes "I st" and "\<And>st st'. I st \<Longrightarrow> loop_body stmt st = Continue st' \<Longrightarrow> I st'"
  shows "\<exists>st' st''. scan stmt st = Some st'' \<and> I st' \<and> loop_body stmt st' = Leave st''"
  using assms(1)
proof (induction "length stmt - currentIndex st" arbitrary: st rule: less_induct)
  case less
  show ?case
  proof (cases "loop_body stmt st")
    case (Continue st1)
    from loop_body_progress [OF Continue]
    have "length stmt - currentIndex st1 < length stmt - currentIndex st" by arith
    moreover have "I st1" using assms(2) less.prems Continue by blast
    ultimately obtain st' st'' where "scan stmt st1 = Some st''" "I st'" "loop_body stmt st' = Leave st''"
      using less.hyps by blast
    then show ?thesis using Continue by (subst scan.simps) auto
  next
    case (Leave st1)
    then show ?thesis using less.prems by (subst scan.simps) auto
  qed
qed

lemma scan_passes:
  assumes "passes stmt st st'"
  shows "scan stmt st = scan stmt st'"
  using assms
proof (induction rule: passes.induct)
  case passes_here
  show ?case by simp
next
  case (passes_on st' st'')
  have "scan stmt st' = scan stmt st''"
    using passes_on.hyps(2) by (subst scan.simps) simp
  with passes_on.IH show ?case by simp
qed

lemma passes_hasJson:
  assumes "passes stmt st st'" "recognizes stmt st"
  shows "st' = st \<or> hasJsonFunction st'"
  using assms
proof (induction rule: passes.induct)
  case passes_here
  show ?case by simp
next
  case (passes_on st' st'')
  from passes_on.IH passes_on.prems consider "st' = st" | "hasJsonFunction st'" by blast
  then show ?case
  proof cases
    case 1
    then show ?thesis using passes_on.hyps(2) passes_on.prems
      by (auto simp: recognizes_def loop_body_def split: if_splits option.splits)
  next
    case 2
    then show ?thesis using loop_body_hasJson [OF passes_on.hyps(2)] by simp
  qed
qed

lemma captures_semicolon:
  assumes "captures stmt st '';''"
  shows "loop_body stmt st = Leave (st\<lparr>hasInvalidToken := True\<rparr>)"
  using assms
  by (auto simp: captures_def loop_body_def split: option.splits prod.splits)

lemma error_of_final:
  assumes "scan stmt scan_start = Some st" "hasJsonFunction st"
    "hasInvalidToken st \<or> openingBrackets st \<noteq> closingBrackets st"
  shows "checkValidJsonStatement (Str stmt) = Some (Inl (Error (''Invalid json statement: '' @ stmt)))"
  using assms by (auto simp: checkValidJsonStatement_def)

lemma recognized_final:
  assumes "passes stmt scan_start st0" "recognizes stmt st0" "scan stmt scan_start = Some st"
  shows "hasJsonFunction st"
proof -
  have "\<exists>st1. loop_body stmt st0 = Continue st1 \<and> hasJsonFunction st1"
  proof (cases "exec jsonFunctionRegex (drop (currentIndex st0) stmt)")
    case None
    then show ?thesis using assms(2) by (auto simp: recognizes_def loop_body_def)
  next
    case (Some m)
    then show ?thesis using assms(2) by (auto simp: recognizes_def loop_body_def)
  qed
  then obtain st1 where st1: "loop_body stmt st0 = Continue st1" "hasJsonFunction st1"
    by blast
  have "scan stmt scan_start = scan stmt st0" using assms(1) by (rule scan_passes)
  also have "\<dots> = scan stmt st1" using st1(1) by (subst scan.simps) simp
  finally have eq: "scan stmt st1 = Some st" using assms(3) by simp
  have "\<exists>st' st''. scan stmt st1 = Some st'' \<and> hasJsonFunction st' \<and> loop_body stmt st' = Leave st''"
  proof (rule scan_ends)
    show "hasJsonFunction st1" by (rule st1(2))
  next
    fix st st'
    assume "hasJsonFunction st" "loop_body stmt st = Continue st'"
    then show "hasJsonFunction st'" using loop_body_hasJson by blast
  qed
  then obtain st' st'' where e: "scan stmt st1 = Some st''" "hasJsonFunction st'" "loop_body stmt st' = Leave st''"
    by blast
  then have "hasJsonFunction st''" using loop_body_Leave_hasJson by blast
  then show ?thesis using e(1) eq by simp
qed


lemma scan_Continue: "loop_body stmt st = Continue st' \<Longrightarrow> scan stmt st = scan stmt st'"
  by (subst scan.simps) simp

lemma scan_Leave: "loop_body stmt st = Leave st' \<Longrightarrow> scan stmt st = Some st'"
  by (subst scan.simps) simp


text \<open>
  Claim C4.  The claim, like the comment above the function (it throws if the statement
  looks like a JSON function but has an invalid token), has the function throw for a path
  in which a recognized JSON function call is followed by \<open>;\<close>.  The loop however
  leaves off without complaint at the first position where none of its three patterns
  matches, so a \<open>;\<close> behind such a position is never seen: for
  \<open>json_extract(a) = 1;\<close> the function call is recognized, the \<open>;\<close> follows it, the
  loop leaves off at \<open>=\<close>, and the function returns true.
\<close>

theorem checkValidJsonStatement_accepts_terminator:
  "exec jsonFunctionRegex ''json_extract(a) = 1;'' = Some ''json_extract(a)''
   \<and> drop (length ''json_extract(a)'') ''json_extract(a) = 1;'' = '' = 1;''
   \<and> checkValidJsonStatement (Str ''json_extract(a) = 1;'') = Some (Inr True)"
proof -
  let ?S = "''json_extract(a) = 1;''"
  have f: "exec jsonFunctionRegex ?S = Some ''json_extract(a)''"
    by code_simp
  have s1: "loop_body ?S scan_start
      = Continue \<lparr>currentIndex = 12, openingBrackets = 0, closingBrackets = 0,
                  hasJsonFunction = True, hasInvalidToken = False\<rparr>"
    by code_simp
  have s2: "loop_body ?S \<lparr>currentIndex = 12, openingBrackets = 0, closingBrackets = 0,
                  hasJsonFunction = True, hasInvalidToken = False\<rparr>
      = Continue \<lparr>currentIndex = 13, openingBrackets = 1, closingBrackets = 0,
                  hasJsonFunction = True, hasInvalidToken = False\<rparr>"
    by code_simp
  have s3: "loop_body ?S \<lparr>currentIndex = 13, openingBrackets = 1, closingBrackets = 0,
                  hasJsonFunction = True, hasInvalidToken = False\<rparr>
      = Continue \<lparr>currentIndex = 14, openingBrackets = 1, closingBrackets = 0,
                  hasJsonFunction = True, hasInvalidToken = False\<rparr>"
    by code_simp
  have s4: "loop_body ?S \<lparr>currentIndex = 14, openingBrackets = 1, closingBrackets = 0,
                  hasJsonFunction = True, hasInvalidToken = False\<rparr>
      = Continue \<lparr>currentIndex = 15, openingBrackets = 1, closingBrackets = 1,
                  hasJsonFunction = True, hasInvalidToken = False\<rparr>"
    by code_simp
  have s5: "loop_body ?S \<lparr>currentIndex = 15, openingBrackets = 1, closingBrackets = 1,
                  hasJsonFunction = True, hasInvalidToken = False\<rparr>
      = Continue \<lparr>currentIndex = 16, openingBrackets = 1, closingBrackets = 1,
                  hasJsonFunction = True, hasInvalidToken = False\<rparr>"
    by code_simp
  have s6: "loop_body ?S \<lparr>currentIndex = 16, openingBrackets = 1, closingBrackets = 1,
                  hasJsonFunction = True, hasInvalidToken = False\<rparr>
      = Leave \<lparr>currentIndex = 16, openingBrackets = 1, closingBrackets = 1,
                  hasJsonFunction = True, hasInvalidToken = False\<rparr>"
    by code_simp
  have "scan ?S scan_start
      = Some \<lparr>currentIndex = 16, openingBrackets = 1, closingBrackets = 1,
               hasJsonFunction = True, hasInvalidToken = False\<rparr>"
    by (simp only: scan_Continue [OF s1] scan_Continue [OF s2] scan_Continue [OF s3]
          scan_Continue [OF s4] scan_Continue [OF s5] scan_Leave [OF s6])
  then have c: "checkValidJsonStatement (Str ?S) = Some (Inr True)"
    by (simp add: checkValidJsonStatement_def)
  have d: "drop (length ''json_extract(a)'') ?S = '' = 1;''"
    by simp
  from f d c show ?thesis by blast
qed



text \<open>
  What the loop does ensure.  For every path string the function ends, throwing or
  returning.  If the loop recognizes a JSON function call or operator at some state and
  at a later state captures the token \<open>;\<close>, the function throws; if the loop recognizes
  one and is left with different counts of captured \<open>(\<close> and \<open>)\<close> tokens, it throws;
  and if neither the function pattern nor the operator pattern matches at any position
  of the string, it returns false without throwing.
\<close>

lemma checkValidJsonStatement_scan:
  "(\<exists>r. checkValidJsonStatement (Str stmt) = Some r)
   \<and> (\<forall>st0 st1. passes stmt scan_start st0 \<and> recognizes stmt st0
                  \<and> passes stmt st0 st1 \<and> captures stmt st1 '';''
         \<longrightarrow> checkValidJsonStatement (Str stmt)
               = Some (Inl (Error (''Invalid json statement: '' @ stmt))))
   \<and> (\<forall>st0 st. passes stmt scan_start st0 \<and> recognizes stmt st0
                 \<and> scan stmt scan_start = Some st \<and> openingBrackets st \<noteq> closingBrackets st
         \<longrightarrow> checkValidJsonStatement (Str stmt)
               = Some (Inl (Error (''Invalid json statement: '' @ stmt))))
   \<and> ((\<forall>i \<in> {..<length stmt}. exec jsonFunctionRegex (drop i stmt) = None
                               \<and> exec jsonOperatorRegex (drop i stmt) = None)
         \<longrightarrow> checkValidJsonStatement (Str stmt) = Some (Inr False))"
proof (intro conjI allI impI)
  have "\<exists>st' st''. scan stmt scan_start = Some st'' \<and> True \<and> loop_body stmt st' = Leave st''"
    by (rule scan_ends) simp_all
  then obtain st where "scan stmt scan_start = Some st"
    by blast
  then show "\<exists>r. checkValidJsonStatement (Str stmt) = Some r"
    by (simp add: checkValidJsonStatement_def)
next
  fix st0 st1
  assume a: "passes stmt scan_start st0 \<and> recognizes stmt st0
               \<and> passes stmt st0 st1 \<and> captures stmt st1 '';''"
  then have "st1 = st0 \<or> hasJsonFunction st1" using passes_hasJson by blast
  moreover have "st1 \<noteq> st0" using a by (auto simp: recognizes_def captures_def)
  ultimately have h: "hasJsonFunction st1" by simp
  have "scan stmt scan_start = scan stmt st0" using a scan_passes by blast
  also have "\<dots> = scan stmt st1" using a scan_passes by blast
  also have "\<dots> = Some (st1\<lparr>hasInvalidToken := True\<rparr>)"
    using captures_semicolon [of stmt st1] a by (subst scan.simps) simp
  finally have "scan stmt scan_start = Some (st1\<lparr>hasInvalidToken := True\<rparr>)" .
  then show "checkValidJsonStatement (Str stmt)
               = Some (Inl (Error (''Invalid json statement: '' @ stmt)))"
    using h by (intro error_of_final [of stmt "st1\<lparr>hasInvalidToken := True\<rparr>"]) simp_all
next
  fix st0 st
  assume a: "passes stmt scan_start st0 \<and> recognizes stmt st0
                 \<and> scan stmt scan_start = Some st \<and> openingBrackets st \<noteq> closingBrackets st"
  then have "hasJsonFunction st" using recognized_final by blast
  then show "checkValidJsonStatement (Str stmt)
               = Some (Inl (Error (''Invalid json statement: '' @ stmt)))"
    using a by (intro error_of_final [of stmt st]) simp_all
next
  assume none: "\<forall>i \<in> {..<length stmt}. exec jsonFunctionRegex (drop i stmt) = None
                               \<and> exec jsonOperatorRegex (drop i stmt) = None"
  have keep: "\<not> hasJsonFunction st'" if "\<not> hasJsonFunction st" "loop_body stmt st = Continue st'" for st st'
    using that none
    by (auto simp: loop_body_def split: if_splits option.splits prod.splits)
  have "\<exists>st' st''. scan stmt scan_start = Some st'' \<and> \<not> hasJsonFunction st'
          \<and> loop_body stmt st' = Leave st''"
  proof (rule scan_ends)
    show "\<not> hasJsonFunction scan_start" by (simp add: scan_start_def)
  next
    fix st st'
    assume "\<not> hasJsonFunction st" "loop_body stmt st = Continue st'"
    then show "\<not> hasJsonFunction st'" by (rule keep)
  qed
  then obtain st' st'' where e: "scan stmt scan_start = Some st''" "\<not> hasJsonFunction st'"
      "loop_body stmt st' = Leave st''"
    by blast
  then have "\<not> hasJsonFunction st''" using loop_body_Leave_hasJson by blast
  then show "checkValidJsonStatement (Str stmt) = Some (Inr False)"
    using e(1) by (simp add: checkValidJsonStatement_def)
qed

lemma checkValidJsonStatement_scan_examples:
  "checkValidJsonStatement (Str ''->;'') = Some (Inl (Error ''Invalid json statement: ->;''))
   \<and> checkValidJsonStatement (Str ''->('') = Some (Inl (Error ''Invalid json statement: ->(''))
   \<and> checkValidJsonStatement (Str ''a.b'') = Some (Inr False)"
proof -
  let ?st1 = "\<lparr>currentIndex = 2, openingBrackets = 0, closingBrackets = 0,
               hasJsonFunction = True, hasInvalidToken = False\<rparr>"
  let ?st2 = "\<lparr>currentIndex = 3, openingBrackets = 1, closingBrackets = 0,
               hasJsonFunction = True, hasInvalidToken = False\<rparr>"
  have r1: "recognizes ''->;'' scan_start" by code_simp
  have s1: "loop_body ''->;'' scan_start = Continue ?st1" by code_simp
  have c1: "captures ''->;'' ?st1 '';''" by code_simp
  have p1: "passes ''->;'' scan_start ?st1"
    using passes_here s1 by (rule passes_on)
  have a: "checkValidJsonStatement (Str ''->;'') = Some (Inl (Error ''Invalid json statement: ->;''))"
    using checkValidJsonStatement_scan [of "''->;''"] passes_here [of "''->;''" scan_start] r1 p1 c1
    by auto
  have r2: "recognizes ''->('' scan_start" by code_simp
  have t1: "loop_body ''->('' scan_start = Continue ?st1" by code_simp
  have t2: "loop_body ''->('' ?st1 = Continue ?st2" by code_simp
  have t3: "loop_body ''->('' ?st2 = Leave ?st2" by code_simp
  have e2: "scan ''->('' scan_start = Some ?st2"
    by (simp only: scan_Continue [OF t1] scan_Continue [OF t2] scan_Leave [OF t3])
  have b: "checkValidJsonStatement (Str ''->('') = Some (Inl (Error ''Invalid json statement: ->(''))"
    using checkValidJsonStatement_scan [of "''->(''"] passes_here [of "''->(''" scan_start] r2 e2
    by auto
  have n3: "\<forall>i \<in> {..<length ''a.b''}. exec jsonFunctionRegex (drop i ''a.b'') = None
                               \<and> exec jsonOperatorRegex (drop i ''a.b'') = None"
  proof -
    have e0: "exec jsonFunctionRegex ''a.b'' = None \<and> exec jsonOperatorRegex ''a.b'' = None"
      by code_simp
    have e1: "exec jsonFunctionRegex ''.b'' = None \<and> exec jsonOperatorRegex ''.b'' = None"
      by code_simp
    have e2: "exec jsonFunctionRegex ''b'' = None \<and> exec jsonOperatorRegex ''b'' = None"
      by code_simp
    have "{..<length ''a.b''} = {0, 1, 2}"
      by auto
    then show ?thesis
      using e0 e1 e2 by simp
  qed
  have c: "checkValidJsonStatement (Str ''a.b'') = Some (Inr False)"
    using checkValidJsonStatement_scan [of "''a.b''"] n3 by blast
  from a b c show ?thesis by simp
qed

section \<open>Properties of \<open>formatError\<close>\<close>

text \<open>
  The module declares none of \<open>ER_DUP_ENTRY\<close>, \<open>ER_ROW_IS_REFERENCED\<close>,
  \<open>ER_NO_REFERENCED_ROW\<close> and \<open>errStack\<close>.  Unless the global object has the first,
  reading the first case label throws, whatever the error; and the block for a duplicate
  entry throws unless the global object has \<open>errStack\<close>.
\<close>

lemma formatError_undeclared:
  "globals ''ER_DUP_ENTRY'' = None \<Longrightarrow>
     formatError q globals err = Inl (ReferenceError ''ER_DUP_ENTRY is not defined'')"
  by (simp add: formatError_def read_global_def Let_def)

lemma duplicate_entry_undeclared:
  "globals ''errStack'' = None \<Longrightarrow>
     duplicate_entry q globals err = Inl (ReferenceError ''errStack is not defined'')"
  by (simp add: duplicate_entry_def read_global_def Let_def)

text \<open>
  Claim C2.  The claim expects a UniqueConstraintError with the fields \<open>name = john\<close>,
  \<open>secretValue = 7\<close> and the driver error as parent for the duplicate entry error on
  the key \<open>name_secret\<close>.  On a global object without the undeclared names, the code
  throws a ReferenceError for this error instead.
\<close>

theorem formatError_duplicate_entry_throws:
  "formatError users_query Map.empty duplicate_john
     = Inl (ReferenceError ''ER_DUP_ENTRY is not defined'')"
  by (simp add: formatError_def read_global_def Let_def)

text \<open>
  Were the four names defined, the function would return what the claim says: the
  message is split into the entry \<open>john-7\<close> and the key \<open>users.name_secret\<close>, and the
  values are paired with the fields of the unique key \<open>name_secret\<close>.
\<close>

lemma forOwn_order_indices_first:
  "forOwn_order [(''b'', Str ''x''), (''10'', Str ''y''), (''2'', Str ''z'')]
     = [(''2'', Str ''z''), (''10'', Str ''y''), (''b'', Str ''x'')]"
  by (simp add: forOwn_order_def is_array_index_def index_value_def is_digit_def)

lemma duplicate_john_match:
  "duplicate_entry_match (error_message duplicate_john) = Some (''john-7'', ''users.name_secret'')"
  by code_simp

lemma formatError_declared:
  "formatError users_query declared_constants duplicate_john
     = Inr (UniqueConstraintError
         \<lparr>uce_message = ''Validation error'',
          uce_errors =
            [ValidationErrorItem ''name must be unique'' ''unique violation'' ''name'' (Str ''john'')
               None ''not_unique'',
             ValidationErrorItem ''secretValue must be unique'' ''unique violation'' ''secretValue''
               (Str ''7'') None ''not_unique''],
          uce_parent = duplicate_john,
          uce_fields = [(''name'', Str ''john''), (''secretValue'', Str ''7'')],
          uce_stack = Str ''Error''\<rparr>)"
  by code_simp

end
